theory Spec2Isabelle
  imports Complex_Main "HOL-Library.Word"
begin

unbundle bit_operations_syntax

section \<open>Phase state machine (the types of src/unnamed/part_000, the reducer of src/unnamed/part_002)\<close>

text \<open>
  \<^verbatim>\<open>IntelligencePhase\<close> is a closed union of nine string literals. JavaScript numbers held
  in the state are only stored and copied by the reducer, never computed with; they are
  modelled as rationals.
\<close>

datatype IntelligencePhase =
  idle | listening | thinking | synthesizing | speaking | reflecting
  | generating_audio | explaining | error

record IntelligenceState =
  phase :: IntelligencePhase
  intensity :: rat
  confidence :: rat
  interruptible :: bool
  transcript :: string
  partialTranscript :: string
  synthesisProgress :: rat
  lastUtteranceTs :: rat

text \<open>
  \<^verbatim>\<open>IntelligenceAction\<close>: a tagged union of seven variants. The field \<^verbatim>\<open>partial?: boolean\<close>
  of \<^verbatim>\<open>SIGNAL_TRANSCRIPT\<close> is optional, hence a \<open>bool option\<close> (\<open>None\<close> is \<^verbatim>\<open>undefined\<close>).
\<close>

datatype IntelligenceAction =
  SIGNAL_PHASE IntelligencePhase
  | SIGNAL_INTENSITY rat
  | SIGNAL_CONFIDENCE rat
  | SIGNAL_TRANSCRIPT string "bool option"
  | SIGNAL_PROGRESS rat
  | SIGNAL_INTERRUPT
  | SIGNAL_RESET

definition initialIntelligenceState :: IntelligenceState where
  "initialIntelligenceState =
     \<lparr> phase = idle, intensity = 0, confidence = 0, interruptible = True,
       transcript = '''', partialTranscript = '''', synthesisProgress = 0,
       lastUtteranceTs = 0 \<rparr>"

text \<open>JavaScript truthiness of an optional boolean: \<^verbatim>\<open>undefined\<close> and \<^verbatim>\<open>false\<close> are falsy.\<close>

fun truthy :: "bool option \<Rightarrow> bool" where
  "truthy None = False"
| "truthy (Some b) = b"

text \<open>
  The reducer, case by case in the order of the \<^verbatim>\<open>switch\<close>. The \<^verbatim>\<open>default\<close> branch
  (return the state unchanged) cannot be reached by a value of the action type, whose seven
  variants are all listed.
\<close>

fun intelligenceReducer :: "IntelligenceState \<Rightarrow> IntelligenceAction \<Rightarrow> IntelligenceState" where
  "intelligenceReducer state (SIGNAL_PHASE payload) = state\<lparr>phase := payload\<rparr>"
| "intelligenceReducer state (SIGNAL_INTENSITY payload) = state\<lparr>intensity := payload\<rparr>"
| "intelligenceReducer state (SIGNAL_CONFIDENCE payload) = state\<lparr>confidence := payload\<rparr>"
| "intelligenceReducer state (SIGNAL_TRANSCRIPT payload partial) =
     (if truthy partial then state\<lparr>partialTranscript := payload\<rparr>
      else state\<lparr>transcript := payload, partialTranscript := ''''\<rparr>)"
| "intelligenceReducer state (SIGNAL_PROGRESS payload) = state\<lparr>synthesisProgress := payload\<rparr>"
| "intelligenceReducer state SIGNAL_INTERRUPT =
     state\<lparr>phase := explaining, intensity := 0, partialTranscript := ''''\<rparr>"
| "intelligenceReducer state SIGNAL_RESET = initialIntelligenceState"

text \<open>
  \<^verbatim>\<open>useReducer(intelligenceReducer, initialIntelligenceState)\<close>: the state after a sequence
  of dispatched actions is the left fold of the reducer from the initial state.
\<close>

definition dispatched :: "IntelligenceAction list \<Rightarrow> IntelligenceState" where
  "dispatched actions = foldl intelligenceReducer initialIntelligenceState actions"

text \<open>
  The transition table of the specification (section 4.4), written from its words: each
  signal names the fields it assigns, and every field it does not name keeps its value.
\<close>

fun spec_transition :: "IntelligenceState \<Rightarrow> IntelligenceAction \<Rightarrow> IntelligenceState" where
  "spec_transition s (SIGNAL_PHASE p) =
     \<lparr> phase = p, intensity = intensity s, confidence = confidence s,
       interruptible = interruptible s, transcript = transcript s,
       partialTranscript = partialTranscript s, synthesisProgress = synthesisProgress s,
       lastUtteranceTs = lastUtteranceTs s \<rparr>"
| "spec_transition s (SIGNAL_INTENSITY v) =
     \<lparr> phase = phase s, intensity = v, confidence = confidence s,
       interruptible = interruptible s, transcript = transcript s,
       partialTranscript = partialTranscript s, synthesisProgress = synthesisProgress s,
       lastUtteranceTs = lastUtteranceTs s \<rparr>"
| "spec_transition s (SIGNAL_CONFIDENCE v) =
     \<lparr> phase = phase s, intensity = intensity s, confidence = v,
       interruptible = interruptible s, transcript = transcript s,
       partialTranscript = partialTranscript s, synthesisProgress = synthesisProgress s,
       lastUtteranceTs = lastUtteranceTs s \<rparr>"
| "spec_transition s (SIGNAL_TRANSCRIPT text partial) =
     (if partial = Some True
      then \<lparr> phase = phase s, intensity = intensity s, confidence = confidence s,
             interruptible = interruptible s, transcript = transcript s,
             partialTranscript = text, synthesisProgress = synthesisProgress s,
             lastUtteranceTs = lastUtteranceTs s \<rparr>
      else \<lparr> phase = phase s, intensity = intensity s, confidence = confidence s,
             interruptible = interruptible s, transcript = text,
             partialTranscript = '''', synthesisProgress = synthesisProgress s,
             lastUtteranceTs = lastUtteranceTs s \<rparr>)"
| "spec_transition s (SIGNAL_PROGRESS v) =
     \<lparr> phase = phase s, intensity = intensity s, confidence = confidence s,
       interruptible = interruptible s, transcript = transcript s,
       partialTranscript = partialTranscript s, synthesisProgress = v,
       lastUtteranceTs = lastUtteranceTs s \<rparr>"
| "spec_transition s SIGNAL_INTERRUPT =
     \<lparr> phase = explaining, intensity = 0, confidence = confidence s,
       interruptible = interruptible s, transcript = transcript s,
       partialTranscript = '''', synthesisProgress = synthesisProgress s,
       lastUtteranceTs = lastUtteranceTs s \<rparr>"
| "spec_transition s SIGNAL_RESET =
     \<lparr> phase = idle, intensity = 0, confidence = 0, interruptible = True,
       transcript = '''', partialTranscript = '''', synthesisProgress = 0,
       lastUtteranceTs = 0 \<rparr>"

section \<open>Audio service (src/services/geminiService.ts)\<close>

text \<open>
  The objects of the browser platform that the service holds are modelled by what the
  service reads from them. An \<^verbatim>\<open>AudioContext\<close> is its sample rate and the reading of its
  device clock, \<^verbatim>\<open>currentTime\<close>, in seconds. Times and durations are JavaScript numbers;
  they are modelled as exact rationals, so that \<^verbatim>\<open>+\<close> and \<^verbatim>\<open>Math.max\<close> are the exact
  operations (floating-point rounding of the sums is not modelled).
\<close>

record AudioContext =
  sampleRate :: nat
  currentTime :: rat

text \<open>
  A Float32Array element: a finite value (every finite single-precision float is a
  rational), or one of the three non-finite values.
\<close>

datatype f32 = Num rat | NaN | PosInf | NegInf

text \<open>
  An \<^verbatim>\<open>AudioBuffer\<close>: channel count, length in sample frames, sample rate and one
  Float32Array per channel. Its \<^verbatim>\<open>duration\<close> attribute is length divided by sample rate.
\<close>

record AudioBuffer =
  numberOfChannels :: nat
  buf_length :: nat
  buf_sampleRate :: nat
  channelData :: "f32 list list"

definition duration :: "AudioBuffer \<Rightarrow> rat" where
  "duration buffer = of_nat (buf_length buffer) / of_nat (buf_sampleRate buffer)"

text \<open>
  The promise stored in \<^verbatim>\<open>activeSession\<close>: awaiting it either yields the live session or
  throws (the connection was never established).
\<close>

datatype SessionPromise = Resolved | Rejected

text \<open>
  Exceptions are values. \<open>Thrown c\<close> is the exception raised by the platform call \<open>c\<close>.
  Calls into the platform that release or drive a resource are recorded, in order, in a trace
  returned by each operation: \<^verbatim>\<open>source.start(t)\<close>, \<^verbatim>\<open>source.stop()\<close>, \<^verbatim>\<open>session.close()\<close>,
  \<^verbatim>\<open>track.stop()\<close>, the \<^verbatim>\<open>close()\<close> of either audio context, and the caller's
  \<^verbatim>\<open>onMessage\<close> callback. Source nodes and tracks are named by natural numbers, standing
  for the identity of the JavaScript objects.
\<close>

datatype call =
  Source_start nat rat
  | Source_stop nat
  | Session_close
  | Track_stop nat
  | InputContext_close
  | OutputContext_close
  | OnMessage_callback

datatype js_error =
  RangeError | NotSupportedError | InvalidCharacterError | Thrown call

text \<open>
  Which platform calls throw is a parameter of the model: \<open>fails c\<close> says that the call \<open>c\<close>
  raises an exception when it is made.
\<close>

type_synonym platform = "call \<Rightarrow> bool"

text \<open>
  The fields of \<^verbatim>\<open>GeminiService\<close>. \<^verbatim>\<open>activeAudioSources\<close> is a JavaScript \<^verbatim>\<open>Set\<close>, kept as
  a duplicate-free list in insertion order (the order in which \<^verbatim>\<open>forEach\<close> visits it). The
  extra field \<open>allocated\<close> counts the source nodes created so far and gives each new node its
  name; it stands for object identity and no operation of the source reads it.
\<close>

record GeminiService =
  activeSession :: "SessionPromise option"
  inputAudioContext :: "AudioContext option"
  outputAudioContext :: "AudioContext option"
  micStream :: "nat list option"
  scheduledTime :: rat
  activeAudioSources :: "nat list"
  allocated :: nat

text \<open>The field initialisers of the class.\<close>

definition new_service :: GeminiService where
  "new_service =
     \<lparr> activeSession = None, inputAudioContext = None, outputAudioContext = None,
       micStream = None, scheduledTime = 0, activeAudioSources = [], allocated = 0 \<rparr>"

text \<open>\<^verbatim>\<open>Set.prototype.add\<close> and \<^verbatim>\<open>Set.prototype.delete\<close>.\<close>

definition set_add :: "nat \<Rightarrow> nat list \<Rightarrow> nat list" where
  "set_add x xs = (if x \<in> set xs then xs else xs @ [x])"

definition set_delete :: "nat \<Rightarrow> nat list \<Rightarrow> nat list" where
  "set_delete x xs = removeAll x xs"

text \<open>
  The state assignments of \<^verbatim>\<open>connectLive\<close> once the microphone has been granted: the stream
  (its tracks), two fresh audio contexts at 16 kHz and 24 kHz whose clocks start at 0, the
  cursor set to the output clock, and the session promise. Nothing of a previous session is
  released here.
\<close>

definition connectLive :: "nat list \<Rightarrow> SessionPromise \<Rightarrow> GeminiService \<Rightarrow> GeminiService" where
  "connectLive tracks sessionPromise this =
     (let out = \<lparr> sampleRate = 24000, currentTime = 0 \<rparr>
      in this\<lparr> micStream := Some tracks,
               inputAudioContext := Some \<lparr> sampleRate = 16000, currentTime = 0 \<rparr>,
               outputAudioContext := Some out,
               scheduledTime := currentTime out,
               activeSession := Some sessionPromise \<rparr>)"

text \<open>
  \<^verbatim>\<open>speakMultiVoiceSegments\<close> up to its first \<^verbatim>\<open>await\<close>: nothing for an empty list of
  segments; otherwise a fresh output context at 24 kHz and the cursor set to its clock. (After
  the awaited response the function decodes the payload and calls \<^verbatim>\<open>playBuffered\<close>.)
\<close>

definition speakMultiVoiceSegments_start :: "'a list \<Rightarrow> GeminiService \<Rightarrow> GeminiService" where
  "speakMultiVoiceSegments_start segments this =
     (if segments = [] then this
      else (let out = \<lparr> sampleRate = 24000, currentTime = 0 \<rparr>
            in this\<lparr> outputAudioContext := Some out, scheduledTime := currentTime out \<rparr>))"

text \<open>
  The environment: the device clock of the output context moves forward by \<open>d\<close> seconds, or
  reads \<open>now\<close>.
\<close>

definition tick :: "rat \<Rightarrow> GeminiService \<Rightarrow> GeminiService" where
  "tick d this =
     this\<lparr> outputAudioContext :=
             map_option (\<lambda>ctx. ctx\<lparr>currentTime := currentTime ctx + d\<rparr>) (outputAudioContext this) \<rparr>"

definition at_time :: "rat \<Rightarrow> GeminiService \<Rightarrow> GeminiService" where
  "at_time now this =
     this\<lparr> outputAudioContext :=
             map_option (\<lambda>ctx. ctx\<lparr>currentTime := now\<rparr>) (outputAudioContext this) \<rparr>"

subsection \<open>PCM encoder\<close>

text \<open>
  \<^verbatim>\<open>int16[i] = data[i] * 32768\<close>. The product of a single-precision sample and \<open>2^15\<close> is
  exact in double precision. Storing a number into an \<^verbatim>\<open>Int16Array\<close> applies the
  ECMAScript conversion ToInt16: a value that is not finite becomes 0; a finite value is
  truncated towards zero and then reduced modulo \<open>2^16\<close> into the signed 16-bit range.
\<close>

fun times32768 :: "f32 \<Rightarrow> f32" where
  "times32768 (Num x) = Num (x * 32768)"
| "times32768 NaN = NaN"
| "times32768 PosInf = PosInf"
| "times32768 NegInf = NegInf"

definition truncate_rat :: "rat \<Rightarrow> int" where
  "truncate_rat x = (if 0 \<le> x then \<lfloor>x\<rfloor> else \<lceil>x\<rceil>)"

fun ToInt16 :: "f32 \<Rightarrow> 16 word" where
  "ToInt16 (Num x) = word_of_int (truncate_rat x)"
| "ToInt16 NaN = 0"
| "ToInt16 PosInf = 0"
| "ToInt16 NegInf = 0"

definition quantize :: "f32 \<Rightarrow> 16 word" where
  "quantize x = ToInt16 (times32768 x)"

text \<open>
  \<^verbatim>\<open>new Uint8Array(int16.buffer)\<close>: the bytes of the samples in the byte order of the
  machine, taken to be little-endian (low byte first).
\<close>

definition int16_bytes :: "16 word \<Rightarrow> 8 word list" where
  "int16_bytes w = [ucast w, ucast (drop_bit 8 w)]"

definition buffer_bytes :: "16 word list \<Rightarrow> 8 word list" where
  "buffer_bytes int16 = concat (map int16_bytes int16)"

text \<open>
  \<^verbatim>\<open>btoa\<close> and \<^verbatim>\<open>atob\<close> are built into the browser (HTML standard, base64 with the
  alphabet of RFC 4648 and the forgiving decoder). A binary string, whose characters are the
  byte values, is modelled as the list of its bytes.
\<close>

definition b64_alphabet :: string where
  "b64_alphabet = ''ABCDEFGHIJKLMNOPQRSTUVWXYZabcdefghijklmnopqrstuvwxyz0123456789+/''"

definition b64_char :: "nat \<Rightarrow> char" where
  "b64_char n = b64_alphabet ! n"

fun index_of :: "char \<Rightarrow> string \<Rightarrow> nat option" where
  "index_of c [] = None"
| "index_of c (x # xs) = (if c = x then Some 0 else map_option Suc (index_of c xs))"

definition b64_value :: "char \<Rightarrow> nat option" where
  "b64_value c = index_of c b64_alphabet"

text \<open>The 6-bit groups of a byte sequence, three bytes making four groups.\<close>

fun sextets :: "8 word list \<Rightarrow> nat list" where
  "sextets (a # b # c # rest) =
     (let n = unat a * 65536 + unat b * 256 + unat c
      in [n div 262144, n div 4096 mod 64, n div 64 mod 64, n mod 64] @ sextets rest)"
| "sextets [a, b] =
     (let n = unat a * 65536 + unat b * 256
      in [n div 262144, n div 4096 mod 64, n div 64 mod 64])"
| "sextets [a] =
     (let n = unat a * 65536
      in [n div 262144, n div 4096 mod 64])"
| "sextets [] = []"

definition btoa :: "8 word list \<Rightarrow> string" where
  "btoa bytes =
     map b64_char (sextets bytes) @ replicate ((3 - length bytes mod 3) mod 3) (CHR ''='')"

text \<open>
  The forgiving decoder: ASCII whitespace is removed; if the length is then a multiple of 4,
  one or two trailing \<^verbatim>\<open>=\<close> are removed; a length of 1 modulo 4 or a character outside the
  alphabet is an error; the 6-bit values are regrouped into bytes, the 4 or 2 surplus bits
  of a final group of two or three characters being dropped.
\<close>

definition ascii_whitespace :: "char \<Rightarrow> bool" where
  "ascii_whitespace c = (c \<in> set [CHR 0x09, CHR 0x0A, CHR 0x0C, CHR 0x0D, CHR 0x20])"

definition strip_padding :: "string \<Rightarrow> string" where
  "strip_padding s =
     (if length s mod 4 = 0
      then (case rev s of
              x # y # r \<Rightarrow>
                if x = CHR ''='' \<and> y = CHR ''='' then rev r
                else if x = CHR ''='' then rev (y # r) else s
            | _ \<Rightarrow> s)
      else s)"

fun octets :: "nat list \<Rightarrow> 8 word list" where
  "octets (a # b # c # d # rest) =
     (let n = ((a * 64 + b) * 64 + c) * 64 + d
      in [of_nat (n div 65536), of_nat (n div 256 mod 256), of_nat (n mod 256)] @ octets rest)"
| "octets [a, b, c] =
     (let n = (a * 64 + b) * 64 + c
      in [of_nat (n div 1024), of_nat (n div 4 mod 256)])"
| "octets [a, b] =
     (let n = a * 64 + b
      in [of_nat (n div 16)])"
| "octets rest = []"

definition atob :: "string \<Rightarrow> js_error + 8 word list" where
  "atob s =
     (let data = strip_padding (filter (\<lambda>c. \<not> ascii_whitespace c) s)
      in if length data mod 4 = 1 then Inl InvalidCharacterError
         else (case those (map b64_value data) of
                 None \<Rightarrow> Inl InvalidCharacterError
               | Some values \<Rightarrow> Inr (octets values)))"

text \<open>
  A \<^verbatim>\<open>Uint8Array\<close> is a view on an \<^verbatim>\<open>ArrayBuffer\<close>: the bytes of the whole buffer
  (\<^verbatim>\<open>data.buffer\<close>), the offset at which the view starts and the number of bytes it shows.
  \<^verbatim>\<open>new Uint8Array(n)\<close> and \<^verbatim>\<open>new Uint8Array(buffer)\<close> make a view of a whole buffer;
  \<^verbatim>\<open>subarray\<close> makes a view of a part. The elements \<^verbatim>\<open>bytes[i]\<close> for \<^verbatim>\<open>i < bytes.byteLength\<close>
  are those of the view.
\<close>

record Uint8Array =
  array_buffer :: "8 word list"
  byteOffset :: nat
  byteLength :: nat

definition whole_view :: "8 word list \<Rightarrow> Uint8Array" where
  "whole_view bytes = \<lparr> array_buffer = bytes, byteOffset = 0, byteLength = length bytes \<rparr>"

definition view_bytes :: "Uint8Array \<Rightarrow> 8 word list" where
  "view_bytes bytes = take (byteLength bytes) (drop (byteOffset bytes) (array_buffer bytes))"

text \<open>
  \<^verbatim>\<open>encode\<close> builds the binary string of the bytes of the view and applies \<^verbatim>\<open>btoa\<close>, which
  cannot fail on characters below 256. \<^verbatim>\<open>createBlob\<close> quantizes every sample and encodes
  \<^verbatim>\<open>new Uint8Array(int16.buffer)\<close>, a view of the whole buffer of the \<^verbatim>\<open>Int16Array\<close>.
\<close>

definition encode :: "Uint8Array \<Rightarrow> string" where
  "encode bytes = btoa (view_bytes bytes)"

record Blob =
  blob_data :: string
  mimeType :: string

definition createBlob :: "f32 list \<Rightarrow> Blob" where
  "createBlob data =
     \<lparr> blob_data = encode (whole_view (buffer_bytes (map quantize data))),
       mimeType = ''audio/pcm;rate=16000'' \<rparr>"

subsection \<open>PCM decoder\<close>

text \<open>
  \<^verbatim>\<open>decode\<close>: \<^verbatim>\<open>atob\<close>, whose exception escapes, then a copy of the character codes into a
  new \<^verbatim>\<open>Uint8Array\<close> of the same length, which owns its whole buffer.
\<close>

definition decode :: "string \<Rightarrow> js_error + Uint8Array" where
  "decode b64 = (case atob b64 of Inl e \<Rightarrow> Inl e | Inr s \<Rightarrow> Inr (whole_view s))"

text \<open>
  \<^verbatim>\<open>new Int16Array(buffer)\<close> on an \<^verbatim>\<open>ArrayBuffer\<close> throws a RangeError when the byte length
  of the buffer is odd; otherwise every two bytes make one element, low byte first.
  \<^verbatim>\<open>decodeAudioData\<close> applies it to \<^verbatim>\<open>data.buffer\<close>, the whole buffer behind the frame,
  whatever part of it the frame shows.
\<close>

fun int16_elements :: "8 word list \<Rightarrow> 16 word list" where
  "int16_elements (lo # hi # rest) = (ucast lo OR push_bit 8 (ucast hi)) # int16_elements rest"
| "int16_elements rest = []"

definition Int16Array :: "8 word list \<Rightarrow> js_error + 16 word list" where
  "Int16Array bytes =
     (if length bytes mod 2 \<noteq> 0 then Inl RangeError else Inr (int16_elements bytes))"

text \<open>
  \<^verbatim>\<open>ctx.createBuffer(numChannels, frames, sampleRate)\<close> of the Web Audio API. The length is
  an \<^verbatim>\<open>unsigned long\<close>: a fractional argument is truncated (and reduced modulo \<open>2^32\<close>) by
  the Web IDL conversion. A channel count, length or sample rate of zero is a
  NotSupportedError (limits above the guaranteed ranges are not modelled). The new buffer is
  silent.
\<close>

definition createBuffer :: "nat \<Rightarrow> rat \<Rightarrow> nat \<Rightarrow> js_error + AudioBuffer" where
  "createBuffer numChannels frames rate =
     (let len = nat \<lfloor>frames\<rfloor> mod 2 ^ 32
      in if numChannels = 0 \<or> len = 0 \<or> rate = 0 then Inl NotSupportedError
         else Inr \<lparr> numberOfChannels = numChannels, buf_length = len, buf_sampleRate = rate,
                    channelData = replicate numChannels (replicate len (Num 0)) \<rparr>)"

text \<open>
  Reading a typed array past its end gives \<^verbatim>\<open>undefined\<close>, and \<^verbatim>\<open>undefined / 32768.0\<close> is
  NaN; a 16-bit integer divided by 32768 is exact in single precision. Writing a typed array
  past its end does nothing.
\<close>

definition sample_at :: "16 word list \<Rightarrow> nat \<Rightarrow> f32" where
  "sample_at int16 k =
     (if k < length int16 then Num (of_int (sint (int16 ! k)) / 32768) else NaN)"

definition typed_set :: "f32 list \<Rightarrow> nat \<Rightarrow> f32 \<Rightarrow> f32 list" where
  "typed_set d i v = (if i < length d then d[i := v] else d)"

text \<open>
  The inner loop \<^verbatim>\<open>for (let i = 0; i < frames; i++) d[i] = int16[i * numChannels + c] /
  32768.0\<close>; \<open>frames\<close> need not be an integer, and \<open>i\<close> runs over the naturals below it.
\<close>

definition fill_channel :: "16 word list \<Rightarrow> nat \<Rightarrow> rat \<Rightarrow> nat \<Rightarrow> f32 list \<Rightarrow> f32 list" where
  "fill_channel int16 numChannels frames c d =
     fold (\<lambda>i d. typed_set d i (sample_at int16 (i * numChannels + c))) [0..<nat \<lceil>frames\<rceil>] d"

definition decodeAudioData ::
  "Uint8Array \<Rightarrow> AudioContext \<Rightarrow> nat \<Rightarrow> nat \<Rightarrow> js_error + AudioBuffer" where
  "decodeAudioData data ctx rate numChannels =
     (case Int16Array (array_buffer data) of
        Inl e \<Rightarrow> Inl e
      | Inr int16 \<Rightarrow>
          (let frames = of_nat (length int16) / of_nat numChannels
           in case createBuffer numChannels frames rate of
                Inl e \<Rightarrow> Inl e
              | Inr buffer \<Rightarrow>
                  Inr (buffer\<lparr> channelData :=
                         map (\<lambda>c. fill_channel int16 numChannels frames c (channelData buffer ! c))
                           [0..<numChannels] \<rparr>)))"

text \<open>
  Encoding a sample buffer and decoding the frame again, with the rate and channel count
  of the encoder (16 kHz, mono).
\<close>

definition encode_then_decode :: "AudioContext \<Rightarrow> f32 list \<Rightarrow> js_error + AudioBuffer" where
  "encode_then_decode ctx samples =
     (case decode (blob_data (createBlob samples)) of
        Inl e \<Rightarrow> Inl e
      | Inr bytes \<Rightarrow> decodeAudioData bytes ctx 16000 1)"

subsection \<open>Playback scheduler\<close>

text \<open>
  \<^verbatim>\<open>playBuffered\<close>: returns at once without an output context; otherwise creates a source
  node, lifts the cursor to the device clock if the clock has passed it, starts the node at
  the cursor, advances the cursor by the buffer's duration and adds the node to the active
  set.
\<close>

definition playBuffered :: "AudioBuffer \<Rightarrow> GeminiService \<Rightarrow> GeminiService \<times> call list" where
  "playBuffered buffer this =
     (case outputAudioContext this of
        None \<Rightarrow> (this, [])
      | Some ctx \<Rightarrow>
          (let source = allocated this;
               start = max (scheduledTime this) (currentTime ctx)
           in (this\<lparr> scheduledTime := start + duration buffer,
                     activeAudioSources := set_add source (activeAudioSources this),
                     allocated := Suc source \<rparr>,
               [Source_start source start])))"

text \<open>The \<^verbatim>\<open>onended\<close> handler installed by \<^verbatim>\<open>playBuffered\<close> on the node \<open>source\<close>.\<close>

definition onended :: "nat \<Rightarrow> GeminiService \<Rightarrow> GeminiService" where
  "onended source this =
     this\<lparr> activeAudioSources := set_delete source (activeAudioSources this) \<rparr>"

text \<open>
  \<^verbatim>\<open>activeAudioSources.forEach(s => { try { s.stop(); } catch(e) {} })\<close>: \<^verbatim>\<open>stop\<close> is called
  on every member in turn; an exception of one call is caught and the loop goes on.
\<close>

fun stop_sources :: "platform \<Rightarrow> nat list \<Rightarrow> call list" where
  "stop_sources fails [] = []"
| "stop_sources fails (s # ss) = Source_stop s # stop_sources fails ss"

text \<open>
  The interruption branch of \<^verbatim>\<open>onmessage\<close>: stop every active source, clear the set, and
  set the cursor to \<^verbatim>\<open>this.outputAudioContext?.currentTime || 0\<close> (0 without a context, and
  0 for a clock reading of 0).
\<close>

definition flush :: "platform \<Rightarrow> GeminiService \<Rightarrow> GeminiService \<times> call list" where
  "flush fails this =
     (let stopped = stop_sources fails (activeAudioSources this)
      in (this\<lparr> activeAudioSources := [],
                scheduledTime :=
                  (case outputAudioContext this of
                     None \<Rightarrow> 0
                   | Some ctx \<Rightarrow> if currentTime ctx = 0 then 0 else currentTime ctx) \<rparr>,
          stopped))"

text \<open>
  A run of the scheduler: each call of \<^verbatim>\<open>playBuffered\<close> comes with the reading of the
  device clock at the moment of the call. The result lists the start times passed to
  \<^verbatim>\<open>source.start\<close>, in call order.
\<close>

fun starts_of :: "call list \<Rightarrow> rat list" where
  "starts_of [] = []"
| "starts_of (Source_start source t # cs) = t # starts_of cs"
| "starts_of (c # cs) = starts_of cs"

fun schedule_all :: "GeminiService \<Rightarrow> (rat \<times> AudioBuffer) list \<Rightarrow> rat list" where
  "schedule_all this [] = []"
| "schedule_all this ((now, buffer) # calls) =
     (case playBuffered buffer (at_time now this) of
        (this', trace) \<Rightarrow> starts_of trace @ schedule_all this' calls)"

subsection \<open>Inbound messages\<close>

text \<open>
  What \<^verbatim>\<open>onmessage\<close> reads of a server message: whether \<^verbatim>\<open>serverContent?.interrupted\<close> is
  truthy, and the base64 payload \<^verbatim>\<open>serverContent?.modelTurn?.parts?.[0]?.inlineData?.data\<close>
  if there is one.
\<close>

record LiveServerMessage =
  interrupted :: bool
  inlineData :: "string option"

text \<open>
  \<^verbatim>\<open>onmessage\<close> is an async function with one \<^verbatim>\<open>await\<close>, on the promise of
  \<^verbatim>\<open>decodeAudioData\<close>. Up to there it runs without interruption: on an interruption,
  flush; then, if there is a non-empty payload and an output context, decode it and call
  \<^verbatim>\<open>decodeAudioData\<close>, whose result (a buffer or an exception) settles the awaited promise.
  Without a payload the caller's callback is invoked and the handler is done; an exception of
  \<^verbatim>\<open>decode\<close> ends the handler at once. There is no \<^verbatim>\<open>try\<close> in the function.
\<close>

datatype onmessage_state =
  Awaiting_decoder "js_error + AudioBuffer"
  | Handled "js_error option"

definition onmessage_start ::
  "platform \<Rightarrow> LiveServerMessage \<Rightarrow> GeminiService \<Rightarrow> onmessage_state \<times> GeminiService \<times> call list" where
  "onmessage_start fails message this =
     (case (if interrupted message then flush fails this else (this, [])) of
        (s1, l1) \<Rightarrow>
          (case inlineData message of
             None \<Rightarrow> (Handled None, s1, l1 @ [OnMessage_callback])
           | Some base64Audio \<Rightarrow>
               (case outputAudioContext s1 of
                  None \<Rightarrow> (Handled None, s1, l1 @ [OnMessage_callback])
                | Some ctx \<Rightarrow>
                    if base64Audio = [] then (Handled None, s1, l1 @ [OnMessage_callback])
                    else (case decode base64Audio of
                            Inl e \<Rightarrow> (Handled (Some e), s1, l1)
                          | Inr bytes \<Rightarrow>
                              (Awaiting_decoder (decodeAudioData bytes ctx 24000 1), s1, l1)))))"

text \<open>
  The rest of the handler runs later, on the state the service has by then (other handlers
  and events may have run in between): a rejected decoder promise makes the \<^verbatim>\<open>await\<close>
  throw, which ends the handler with that exception; otherwise the buffer is scheduled and
  the message handed to the caller's callback.
\<close>

definition onmessage_resume ::
  "js_error + AudioBuffer \<Rightarrow> GeminiService \<Rightarrow> js_error option \<times> GeminiService \<times> call list" where
  "onmessage_resume decoded this =
     (case decoded of
        Inl e \<Rightarrow> (Some e, this, [])
      | Inr buffer \<Rightarrow>
          (case playBuffered buffer this of
             (s2, l2) \<Rightarrow> (None, s2, l2 @ [OnMessage_callback])))"

text \<open>A handler with nothing running between its two parts.\<close>

definition onmessage ::
  "platform \<Rightarrow> LiveServerMessage \<Rightarrow> GeminiService \<Rightarrow> js_error option \<times> GeminiService \<times> call list" where
  "onmessage fails message this =
     (case onmessage_start fails message this of
        (Handled r, s1, l1) \<Rightarrow> (r, s1, l1)
      | (Awaiting_decoder decoded, s1, l1) \<Rightarrow>
          (case onmessage_resume decoded s1 of (r, s2, l2) \<Rightarrow> (r, s2, l1 @ l2)))"

text \<open>
  Two handlers started one after the other in the same turn of the event loop: the second
  runs up to its \<^verbatim>\<open>await\<close> before the first resumes. The result lists what escapes the
  first and the second handler.
\<close>

definition onmessage_twice ::
  "platform \<Rightarrow> LiveServerMessage \<Rightarrow> LiveServerMessage \<Rightarrow> GeminiService \<Rightarrow>
   js_error option \<times> js_error option \<times> GeminiService \<times> call list" where
  "onmessage_twice fails first second this =
     (case onmessage_start fails first this of
        (Handled r1, s1, l1) \<Rightarrow>
          (case onmessage fails second s1 of (r2, s2, l2) \<Rightarrow> (r1, r2, s2, l1 @ l2))
      | (Awaiting_decoder d1, s1, l1) \<Rightarrow>
          (case onmessage_start fails second s1 of
             (Handled r2, s2, l2) \<Rightarrow>
               (case onmessage_resume d1 s2 of (r1, s3, l3) \<Rightarrow> (r1, r2, s3, l1 @ l2 @ l3))
           | (Awaiting_decoder d2, s2, l2) \<Rightarrow>
               (case onmessage_resume d1 s2 of
                  (r1, s3, l3) \<Rightarrow>
                    (case onmessage_resume d2 s3 of
                       (r2, s4, l4) \<Rightarrow> (r1, r2, s4, l1 @ l2 @ l3 @ l4)))))"

subsection \<open>Session teardown\<close>

text \<open>
  \<^verbatim>\<open>stopLive\<close> is an async function with one \<^verbatim>\<open>await\<close>, on the stored session promise,
  inside its first statement. Each part below returns the exception that escapes it (if
  any), the new state and the platform calls it made.
\<close>

text \<open>
  \<^verbatim>\<open>this.micStream.getTracks().forEach(t => t.stop())\<close>: no handler around the call, so the
  first throwing \<^verbatim>\<open>stop\<close> ends the loop and the exception escapes.
\<close>

fun stop_tracks :: "platform \<Rightarrow> nat list \<Rightarrow> js_error option \<times> call list" where
  "stop_tracks fails [] = (None, [])"
| "stop_tracks fails (t # ts) =
     (if fails (Track_stop t) then (Some (Thrown (Track_stop t)), [Track_stop t])
      else (case stop_tracks fails ts of (r, trace) \<Rightarrow> (r, Track_stop t # trace)))"

definition release_mic ::
  "platform \<Rightarrow> GeminiService \<Rightarrow> js_error option \<times> GeminiService \<times> call list" where
  "release_mic fails this =
     (case micStream this of
        None \<Rightarrow> (None, this, [])
      | Some tracks \<Rightarrow>
          (case stop_tracks fails tracks of
             (Some e, trace) \<Rightarrow> (Some e, this, trace)
           | (None, trace) \<Rightarrow> (None, this\<lparr>micStream := None\<rparr>, trace)))"

definition release_sources :: "platform \<Rightarrow> GeminiService \<Rightarrow> GeminiService \<times> call list" where
  "release_sources fails this =
     (this\<lparr>activeAudioSources := []\<rparr>, stop_sources fails (activeAudioSources this))"

text \<open>
  \<^verbatim>\<open>if (this.inputAudioContext) { this.inputAudioContext.close(); this.inputAudioContext =
  null; }\<close> and the same for the output context: no handler around \<^verbatim>\<open>close\<close>.
\<close>

definition release_input ::
  "platform \<Rightarrow> GeminiService \<Rightarrow> js_error option \<times> GeminiService \<times> call list" where
  "release_input fails this =
     (case inputAudioContext this of
        None \<Rightarrow> (None, this, [])
      | Some ctx \<Rightarrow>
          (if fails InputContext_close then (Some (Thrown InputContext_close), this, [InputContext_close])
           else (None, this\<lparr>inputAudioContext := None\<rparr>, [InputContext_close])))"

definition release_output ::
  "platform \<Rightarrow> GeminiService \<Rightarrow> js_error option \<times> GeminiService \<times> call list" where
  "release_output fails this =
     (case outputAudioContext this of
        None \<Rightarrow> (None, this, [])
      | Some ctx \<Rightarrow>
          (if fails OutputContext_close then (Some (Thrown OutputContext_close), this, [OutputContext_close])
           else (None, this\<lparr>outputAudioContext := None\<rparr>, [OutputContext_close])))"

text \<open>
  The statements after the first: tracks, scheduled sources, input context, output context.
  They run without suspension.
\<close>

definition stopLive_rest ::
  "platform \<Rightarrow> GeminiService \<Rightarrow> js_error option \<times> GeminiService \<times> call list" where
  "stopLive_rest fails this =
     (case release_mic fails this of
         (Some e, s2, l2) \<Rightarrow> (Some e, s2, l2)
       | (None, s2, l2) \<Rightarrow>
      (case release_sources fails s2 of (s3, l3) \<Rightarrow>
      (case release_input fails s3 of
         (Some e, s4, l4) \<Rightarrow> (Some e, s4, l2 @ l3 @ l4)
       | (None, s4, l4) \<Rightarrow>
      (case release_output fails s4 of
         (r, s5, l5) \<Rightarrow> (r, s5, l2 @ l3 @ l4 @ l5)))))"

text \<open>
  The first statement: \<^verbatim>\<open>if (this.activeSession) { try { (await this.activeSession).close();
  } catch(e){} this.activeSession = null; }\<close>. With no session stored the function goes
  straight on to the other statements. With a session stored it is suspended at the
  \<^verbatim>\<open>await\<close>, the field still set.
\<close>

datatype stopLive_state =
  Awaiting_session SessionPromise
  | Stopped "js_error option \<times> GeminiService \<times> call list"

definition stopLive_start :: "platform \<Rightarrow> GeminiService \<Rightarrow> stopLive_state" where
  "stopLive_start fails this =
     (case activeSession this of
        None \<Rightarrow> Stopped (stopLive_rest fails this)
      | Some sessionPromise \<Rightarrow> Awaiting_session sessionPromise)"

text \<open>
  When the awaited promise has settled the function resumes, on the state the service has by
  then: \<^verbatim>\<open>close\<close> is called on a resolved session (a rejected promise or a throwing
  \<^verbatim>\<open>close\<close> is caught), the field is cleared, and the other statements follow.
\<close>

definition close_session :: "SessionPromise \<Rightarrow> call list" where
  "close_session sessionPromise =
     (case sessionPromise of Resolved \<Rightarrow> [Session_close] | Rejected \<Rightarrow> [])"

definition stopLive_resume ::
  "platform \<Rightarrow> SessionPromise \<Rightarrow> GeminiService \<Rightarrow> js_error option \<times> GeminiService \<times> call list" where
  "stopLive_resume fails sessionPromise this =
     (case stopLive_rest fails (this\<lparr>activeSession := None\<rparr>) of
        (r, s, l) \<Rightarrow> (r, s, close_session sessionPromise @ l))"

text \<open>A call of \<^verbatim>\<open>stopLive\<close> with nothing running between its two parts.\<close>

definition stopLive ::
  "platform \<Rightarrow> GeminiService \<Rightarrow> js_error option \<times> GeminiService \<times> call list" where
  "stopLive fails this =
     (case stopLive_start fails this of
        Stopped result \<Rightarrow> result
      | Awaiting_session sessionPromise \<Rightarrow> stopLive_resume fails sessionPromise this)"

text \<open>
  Two calls started one after the other without waiting for the first (an explicit stop
  and the remote \<^verbatim>\<open>onclose\<close>, say): if the first is suspended at its \<^verbatim>\<open>await\<close>, the second
  finds the session still stored and awaits the same promise; the first resumes, then the
  second. The result lists what escapes the first and the second call.
\<close>

definition stopLive_twice ::
  "platform \<Rightarrow> GeminiService \<Rightarrow> js_error option \<times> js_error option \<times> GeminiService \<times> call list" where
  "stopLive_twice fails this =
     (case stopLive_start fails this of
        Stopped (r1, s1, l1) \<Rightarrow>
          (case stopLive fails s1 of (r2, s2, l2) \<Rightarrow> (r1, r2, s2, l1 @ l2))
      | Awaiting_session sessionPromise \<Rightarrow>
          (case stopLive_resume fails sessionPromise this of
             (r1, s1, l1) \<Rightarrow>
               (case stopLive_resume fails sessionPromise s1 of
                  (r2, s2, l2) \<Rightarrow> (r1, r2, s2, l1 @ l2))))"

section \<open>Notions used by the properties\<close>

text \<open>
  Events on the service in any interleaving: the clock advances, a buffer is scheduled, an
  interruption flushes, a source ends by itself, a live session or a narration starts, the
  session is torn down.
\<close>

datatype event =
  Tick rat
  | Schedule AudioBuffer
  | Flush
  | Ended nat
  | Connect "nat list" SessionPromise
  | Narrate "string list"
  | Teardown

fun apply_event :: "platform \<Rightarrow> GeminiService \<Rightarrow> event \<Rightarrow> GeminiService" where
  "apply_event fails this (Tick d) = (if 0 \<le> d then tick d this else this)"
| "apply_event fails this (Schedule buffer) = fst (playBuffered buffer this)"
| "apply_event fails this Flush = fst (flush fails this)"
| "apply_event fails this (Ended source) = onended source this"
| "apply_event fails this (Connect tracks sessionPromise) = connectLive tracks sessionPromise this"
| "apply_event fails this (Narrate segments) = speakMultiVoiceSegments_start segments this"
| "apply_event fails this Teardown = fst (snd (stopLive fails this))"

definition run_events :: "platform \<Rightarrow> GeminiService \<Rightarrow> event list \<Rightarrow> GeminiService" where
  "run_events fails this events = foldl (apply_event fails) this events"

text \<open>
  Whether an event assigns the cursor: in the source \<^verbatim>\<open>scheduledTime\<close> is assigned by
  \<^verbatim>\<open>speakMultiVoiceSegments\<close>, \<^verbatim>\<open>connectLive\<close>, the interruption branch of \<^verbatim>\<open>onmessage\<close> and
  \<^verbatim>\<open>playBuffered\<close>, and nowhere else (a narration of no segments returns before it).
\<close>

fun writes_cursor :: "event \<Rightarrow> bool" where
  "writes_cursor (Tick d) = False"
| "writes_cursor (Schedule buffer) = True"
| "writes_cursor Flush = True"
| "writes_cursor (Ended source) = False"
| "writes_cursor (Connect tracks sessionPromise) = True"
| "writes_cursor (Narrate segments) = (segments \<noteq> [])"
| "writes_cursor Teardown = False"

text \<open>The cursor is not behind the device clock of the output context (if there is one).\<close>

definition cursor_ahead :: "GeminiService \<Rightarrow> bool" where
  "cursor_ahead this =
     (case outputAudioContext this of
        None \<Rightarrow> True
      | Some ctx \<Rightarrow> currentTime ctx \<le> scheduledTime this)"

text \<open>
  What a complete teardown leaves of a state, and the platform calls that the guarded
  release steps make for the resources a state holds.
\<close>

definition released :: "GeminiService \<Rightarrow> GeminiService" where
  "released this =
     this\<lparr> activeSession := None, micStream := None, activeAudioSources := [],
           inputAudioContext := None, outputAudioContext := None \<rparr>"

definition session_calls :: "SessionPromise option \<Rightarrow> call list" where
  "session_calls p = (if p = Some Resolved then [Session_close] else [])"

definition track_calls :: "nat list option \<Rightarrow> call list" where
  "track_calls m = (case m of None \<Rightarrow> [] | Some tracks \<Rightarrow> map Track_stop tracks)"

definition context_calls :: "call \<Rightarrow> AudioContext option \<Rightarrow> call list" where
  "context_calls c ctx = (if ctx = None then [] else [c])"

text \<open>
  Clamping into the signed 16-bit range, as the specification words the conversion of the
  encoder (section 4.1 and the claim made from it).
\<close>

definition clamp16 :: "int \<Rightarrow> int" where
  "clamp16 n = max (- 32768) (min 32767 n)"

subsection \<open>Concrete inputs\<close>




definition half_second :: AudioBuffer where
  "half_second =
     \<lparr> numberOfChannels = 1, buf_length = 12000, buf_sampleRate = 24000,
       channelData = [replicate 12000 (Num 0)] \<rparr>"

definition live_service :: GeminiService where
  "live_service = connectLive [7] Resolved new_service"

definition playing_service :: GeminiService where
  "playing_service = fst (playBuffered half_second live_service)"

definition no_failure :: platform where
  "no_failure c = False"


definition wrapped_failure :: platform where
  "wrapped_failure c = (c = Session_close \<or> c = Source_stop 0)"


section \<open>Properties of the phase state machine\<close>

lemma truthy_iff: "truthy p \<longleftrightarrow> p = Some True"
  by (cases p) simp_all

lemma reducer_interruptible:
  "interruptible s = True \<Longrightarrow> interruptible (intelligenceReducer s a) = True"
  by (cases a) (simp_all add: initialIntelligenceState_def)

lemma reducer_lastUtteranceTs:
  "lastUtteranceTs s = 0 \<Longrightarrow> lastUtteranceTs (intelligenceReducer s a) = 0"
  by (cases a) (simp_all add: initialIntelligenceState_def)

lemma foldl_reducer_constant_fields:
  "interruptible s = True \<and> lastUtteranceTs s = 0 \<Longrightarrow>
   interruptible (foldl intelligenceReducer s as) = True \<and>
   lastUtteranceTs (foldl intelligenceReducer s as) = 0"
proof (induction as arbitrary: s)
  case Nil
  then show ?case by simp
next
  case (Cons a as)
  have "interruptible (intelligenceReducer s a) = True \<and>
        lastUtteranceTs (intelligenceReducer s a) = 0"
    using Cons.prems reducer_interruptible reducer_lastUtteranceTs by blast
  then show ?case using Cons.IH by simp
qed

text \<open>
  C5. The reducer is a total, pure function of the state and the signal: on every state and
  every signal its result is the fully determined record that the transition table of the
  specification prescribes, every field having a defined value; and \<^verbatim>\<open>SIGNAL_RESET\<close>
  applied to any state gives exactly \<^verbatim>\<open>initialIntelligenceState\<close>, all eight fields.
\<close>

theorem intelligenceReducer_total_reset:
  "intelligenceReducer s a = spec_transition s a \<and>
   intelligenceReducer s SIGNAL_RESET = initialIntelligenceState \<and>
   initialIntelligenceState =
     \<lparr> phase = idle, intensity = 0, confidence = 0, interruptible = True,
       transcript = '''', partialTranscript = '''', synthesisProgress = 0,
       lastUtteranceTs = 0 \<rparr>"
proof -
  have "intelligenceReducer s a = spec_transition s a"
    by (cases a) (simp_all add: truthy_iff initialIntelligenceState_def)
  then show ?thesis
    by (simp add: initialIntelligenceState_def)
qed

text \<open>
  C6. Frame effects of three signals, field by field. \<^verbatim>\<open>SIGNAL_PHASE\<close> assigns the phase and
  keeps the seven other fields. \<^verbatim>\<open>SIGNAL_INTERRUPT\<close> sets the phase to \<^verbatim>\<open>explaining\<close>, the
  intensity to 0 and the partial transcript to the empty string, and keeps the five other
  fields. \<^verbatim>\<open>SIGNAL_TRANSCRIPT\<close> with \<^verbatim>\<open>partial\<close> true assigns only the partial transcript;
  with \<^verbatim>\<open>partial\<close> false or absent it assigns the transcript, empties the partial
  transcript and keeps the six other fields.
\<close>

theorem intelligenceReducer_frame_effects:
  "intelligenceReducer s (SIGNAL_PHASE p) =
     \<lparr> phase = p, intensity = intensity s, confidence = confidence s,
       interruptible = interruptible s, transcript = transcript s,
       partialTranscript = partialTranscript s, synthesisProgress = synthesisProgress s,
       lastUtteranceTs = lastUtteranceTs s \<rparr> \<and>
   intelligenceReducer s SIGNAL_INTERRUPT =
     \<lparr> phase = explaining, intensity = 0, confidence = confidence s,
       interruptible = interruptible s, transcript = transcript s,
       partialTranscript = [], synthesisProgress = synthesisProgress s,
       lastUtteranceTs = lastUtteranceTs s \<rparr> \<and>
   intelligenceReducer s (SIGNAL_TRANSCRIPT t (Some True)) =
     \<lparr> phase = phase s, intensity = intensity s, confidence = confidence s,
       interruptible = interruptible s, transcript = transcript s,
       partialTranscript = t, synthesisProgress = synthesisProgress s,
       lastUtteranceTs = lastUtteranceTs s \<rparr> \<and>
   intelligenceReducer s (SIGNAL_TRANSCRIPT t (Some False)) =
     \<lparr> phase = phase s, intensity = intensity s, confidence = confidence s,
       interruptible = interruptible s, transcript = t,
       partialTranscript = [], synthesisProgress = synthesisProgress s,
       lastUtteranceTs = lastUtteranceTs s \<rparr> \<and>
   intelligenceReducer s (SIGNAL_TRANSCRIPT t None) =
     intelligenceReducer s (SIGNAL_TRANSCRIPT t (Some False))"
  by simp

text \<open>
  C10. In every state that \<^verbatim>\<open>useReducer\<close> can hold, that is after any sequence of actions
  dispatched from the initial state, \<^verbatim>\<open>interruptible\<close> is true and \<^verbatim>\<open>lastUtteranceTs\<close> is 0:
  from any state, every signal but \<^verbatim>\<open>SIGNAL_RESET\<close> keeps both fields, and \<^verbatim>\<open>SIGNAL_RESET\<close>
  puts their initial values back.
\<close>

theorem interruptible_lastUtteranceTs_constant:
  "interruptible (dispatched actions) = True \<and> lastUtteranceTs (dispatched actions) = 0 \<and>
   interruptible (intelligenceReducer s a) =
     (if a = SIGNAL_RESET then True else interruptible s) \<and>
   lastUtteranceTs (intelligenceReducer s a) =
     (if a = SIGNAL_RESET then 0 else lastUtteranceTs s)"
proof -
  have "interruptible (dispatched actions) = True \<and> lastUtteranceTs (dispatched actions) = 0"
    unfolding dispatched_def
    by (rule foldl_reducer_constant_fields) (simp add: initialIntelligenceState_def)
  moreover have "interruptible (intelligenceReducer s a) =
      (if a = SIGNAL_RESET then True else interruptible s)"
    by (cases a) (simp_all add: initialIntelligenceState_def)
  moreover have "lastUtteranceTs (intelligenceReducer s a) =
      (if a = SIGNAL_RESET then 0 else lastUtteranceTs s)"
    by (cases a) (simp_all add: initialIntelligenceState_def)
  ultimately show ?thesis by simp
qed

section \<open>Properties of the playback scheduler\<close>

lemma duration_nonneg: "0 \<le> duration buffer"
  by (simp add: duration_def)

lemma stop_sources_map: "stop_sources fails ss = map Source_stop ss"
  by (induction ss) simp_all

lemma playBuffered_with_context:
  "outputAudioContext this = Some ctx \<Longrightarrow>
   playBuffered buffer (at_time now this) =
     ((at_time now this)\<lparr> scheduledTime := max (scheduledTime this) now + duration buffer,
             activeAudioSources := set_add (allocated this) (activeAudioSources this),
             allocated := Suc (allocated this) \<rparr>,
      [Source_start (allocated this) (max (scheduledTime this) now)])"
  by (simp add: playBuffered_def at_time_def Let_def)

lemma schedule_all_Cons:
  assumes "outputAudioContext this = Some ctx"
  shows "\<exists>this'. outputAudioContext this' = Some (ctx\<lparr>currentTime := now\<rparr>) \<and>
           scheduledTime this' = max (scheduledTime this) now + duration buffer \<and>
           schedule_all this ((now, buffer) # calls) =
             max (scheduledTime this) now # schedule_all this' calls"
proof -
  let ?this' = "(at_time now this)\<lparr> scheduledTime := max (scheduledTime this) now + duration buffer,
             activeAudioSources := set_add (allocated this) (activeAudioSources this),
             allocated := Suc (allocated this) \<rparr>"
  have "schedule_all this ((now, buffer) # calls) =
          max (scheduledTime this) now # schedule_all ?this' calls"
    by (simp add: playBuffered_with_context [OF assms])
  moreover have "outputAudioContext ?this' = Some (ctx\<lparr>currentTime := now\<rparr>)"
    using assms by (simp add: at_time_def)
  moreover have "scheduledTime ?this' = max (scheduledTime this) now + duration buffer"
    by simp
  ultimately show ?thesis by blast
qed

lemma schedule_all_length:
  "outputAudioContext this = Some ctx \<Longrightarrow> length (schedule_all this calls) = length calls"
proof (induction calls arbitrary: this ctx)
  case Nil
  then show ?case by simp
next
  case (Cons c calls)
  obtain now buffer where c: "c = (now, buffer)" by (cases c)
  from schedule_all_Cons [OF Cons.prems, of now buffer calls]
  obtain this' where "outputAudioContext this' = Some (ctx\<lparr>currentTime := now\<rparr>)"
    and "schedule_all this ((now, buffer) # calls) =
             max (scheduledTime this) now # schedule_all this' calls" by blast
  then show ?case using Cons.IH c by simp
qed

lemma schedule_all_hd:
  "outputAudioContext this = Some ctx \<Longrightarrow> calls \<noteq> [] \<Longrightarrow>
   schedule_all this calls ! 0 = max (scheduledTime this) (fst (calls ! 0))"
  by (cases calls) (auto simp: playBuffered_with_context)

lemma schedule_all_next:
  "outputAudioContext this = Some ctx \<Longrightarrow> Suc k < length calls \<Longrightarrow>
   schedule_all this calls ! Suc k =
     max (schedule_all this calls ! k + duration (snd (calls ! k))) (fst (calls ! Suc k))"
proof (induction calls arbitrary: this ctx k)
  case Nil
  then show ?case by simp
next
  case (Cons c calls)
  obtain now buffer where c: "c = (now, buffer)" by (cases c)
  from schedule_all_Cons [OF Cons.prems(1), of now buffer calls]
  obtain this' where ctx': "outputAudioContext this' = Some (ctx\<lparr>currentTime := now\<rparr>)"
    and sched': "scheduledTime this' = max (scheduledTime this) now + duration buffer"
    and eq: "schedule_all this ((now, buffer) # calls) =
             max (scheduledTime this) now # schedule_all this' calls" by blast
  show ?case
  proof (cases k)
    case 0
    have "calls \<noteq> []" using Cons.prems(2) 0 by auto
    from schedule_all_hd [OF ctx' this] show ?thesis
      using 0 c eq sched' by simp
  next
    case (Suc j)
    have "Suc j < length calls" using Cons.prems(2) Suc by simp
    from Cons.IH [OF ctx' this] show ?thesis
      using Suc c eq by simp
  qed
qed

text \<open>
  C1. In a run of \<^verbatim>\<open>playBuffered\<close> calls on one output context with no flush in between,
  call \<open>k+1\<close> starts where buffer \<open>k\<close> ends (start of call \<open>k\<close> plus the duration of buffer
  \<open>k\<close>), unless the device clock read by call \<open>k+1\<close> has passed that instant, in which case
  it starts at the clock reading; in both cases it does not start before buffer \<open>k\<close> ends, so
  consecutive buffers never overlap. Every call starts exactly one source.
\<close>

theorem playBuffered_gapless:
  assumes "outputAudioContext this = Some ctx" and "Suc k < length calls"
  shows "length (schedule_all this calls) = length calls \<and>
         schedule_all this calls ! Suc k =
           (if schedule_all this calls ! k + duration (snd (calls ! k)) < fst (calls ! Suc k)
            then fst (calls ! Suc k)
            else schedule_all this calls ! k + duration (snd (calls ! k))) \<and>
         schedule_all this calls ! k + duration (snd (calls ! k)) \<le> schedule_all this calls ! Suc k"
  using schedule_all_length [OF assms(1)] schedule_all_next [OF assms]
  by (simp add: max_def)

theorem playBuffered_gapless_witness:
  "outputAudioContext live_service = Some \<lparr> sampleRate = 24000, currentTime = 0 \<rparr> \<and>
   schedule_all live_service [(0, half_second), (0, half_second), (2, half_second)] ! 1 = 1 / 2 \<and>
   schedule_all live_service [(0, half_second), (0, half_second), (2, half_second)] ! 2 = 2"
proof -
  have ctx: "outputAudioContext live_service = Some \<lparr> sampleRate = 24000, currentTime = 0 \<rparr>"
    by (simp add: live_service_def connectLive_def new_service_def)
  have starts:
    "schedule_all live_service [(0, half_second), (0, half_second), (2, half_second)] ! 0 = 0"
    by (simp add: live_service_def connectLive_def new_service_def playBuffered_def at_time_def
        Let_def)
  have dur: "duration half_second = 1 / 2"
    by (simp add: duration_def half_second_def)
  have first: "schedule_all live_service [(0, half_second), (0, half_second), (2, half_second)] ! 1 = 1 / 2"
    using playBuffered_gapless [OF ctx, of 0 "[(0, half_second), (0, half_second), (2, half_second)]"]
      starts dur by simp
  have "schedule_all live_service [(0, half_second), (0, half_second), (2, half_second)] ! 2 = 2"
    using playBuffered_gapless [OF ctx, of 1 "[(0, half_second), (0, half_second), (2, half_second)]"]
      first dur by (simp add: numeral_2_eq_2)
  with ctx first show ?thesis by simp
qed

text \<open>
  C2. With an output context, the interruption flush calls \<^verbatim>\<open>stop\<close> on every member of
  the active set (an exception of a call is swallowed), leaves the set empty and sets the
  cursor to the reading of the device clock; and a \<^verbatim>\<open>playBuffered\<close> that follows the flush,
  whatever the clock reads by then, starts its source no earlier than the clock reading at
  the flush.
\<close>

theorem flush_then_schedule:
  assumes "outputAudioContext this = Some ctx"
  shows "snd (flush fails this) = map Source_stop (activeAudioSources this) \<and>
         activeAudioSources (fst (flush fails this)) = [] \<and>
         scheduledTime (fst (flush fails this)) = currentTime ctx \<and>
         (\<exists>source start.
            snd (playBuffered buffer (at_time later (fst (flush fails this)))) =
              [Source_start source start] \<and>
            currentTime ctx \<le> start)"
  using assms
  by (simp add: flush_def stop_sources_map playBuffered_def at_time_def Let_def)

theorem flush_then_schedule_witness:
  "outputAudioContext playing_service = Some \<lparr> sampleRate = 24000, currentTime = 0 \<rparr> \<and>
   snd (flush no_failure playing_service) = [Source_stop 0] \<and>
   activeAudioSources (fst (flush no_failure playing_service)) = [] \<and>
   scheduledTime (fst (flush no_failure playing_service)) = 0"
proof -
  have ctx: "outputAudioContext playing_service = Some \<lparr> sampleRate = 24000, currentTime = 0 \<rparr>"
    by (simp add: playing_service_def live_service_def connectLive_def new_service_def
        playBuffered_def Let_def)
  have active: "activeAudioSources playing_service = [0]"
    by (simp add: playing_service_def live_service_def connectLive_def new_service_def
        playBuffered_def set_add_def Let_def)
  show ?thesis
    using flush_then_schedule [OF ctx, of no_failure half_second 0] ctx active by simp
qed

section \<open>Properties of the session teardown\<close>

lemma stop_tracks_ok:
  "(\<And>t. \<not> fails (Track_stop t)) \<Longrightarrow> stop_tracks fails ts = (None, map Track_stop ts)"
  by (induction ts) simp_all

lemma close_session_calls: "close_session p = session_calls (Some p)"
  by (cases p) (simp_all add: close_session_def session_calls_def)

lemma release_mic_ok:
  "(\<And>t. \<not> fails (Track_stop t)) \<Longrightarrow>
   release_mic fails this = (None, this\<lparr>micStream := None\<rparr>, track_calls (micStream this))"
  by (cases "micStream this") (simp_all add: release_mic_def track_calls_def stop_tracks_ok)

lemma release_input_ok:
  "\<not> fails InputContext_close \<Longrightarrow>
   release_input fails this =
     (None, this\<lparr>inputAudioContext := None\<rparr>,
      context_calls InputContext_close (inputAudioContext this))"
  by (cases "inputAudioContext this") (simp_all add: release_input_def context_calls_def)

lemma release_output_ok:
  "\<not> fails OutputContext_close \<Longrightarrow>
   release_output fails this =
     (None, this\<lparr>outputAudioContext := None\<rparr>,
      context_calls OutputContext_close (outputAudioContext this))"
  by (cases "outputAudioContext this") (simp_all add: release_output_def context_calls_def)

lemma stopLive_rest_ok:
  assumes "\<And>t. \<not> fails (Track_stop t)"
    and "\<not> fails InputContext_close" and "\<not> fails OutputContext_close"
  shows "stopLive_rest fails this =
     (None,
      this\<lparr> micStream := None, activeAudioSources := [], inputAudioContext := None,
            outputAudioContext := None \<rparr>,
      track_calls (micStream this) @ map Source_stop (activeAudioSources this) @
      context_calls InputContext_close (inputAudioContext this) @
      context_calls OutputContext_close (outputAudioContext this))"
  using assms
  by (simp add: stopLive_rest_def release_mic_ok release_sources_def release_input_ok
      release_output_ok stop_sources_map)

lemma released_without_session:
  "activeSession this = None \<Longrightarrow>
   this\<lparr> micStream := None, activeAudioSources := [], inputAudioContext := None,
         outputAudioContext := None \<rparr> = released this"
  by (cases this) (simp add: released_def)

lemma stopLive_ok:
  assumes "\<And>t. \<not> fails (Track_stop t)"
    and "\<not> fails InputContext_close" and "\<not> fails OutputContext_close"
  shows "stopLive fails this =
     (None, released this,
      session_calls (activeSession this) @ track_calls (micStream this) @
      map Source_stop (activeAudioSources this) @
      context_calls InputContext_close (inputAudioContext this) @
      context_calls OutputContext_close (outputAudioContext this))"
proof (cases "activeSession this")
  case None
  then show ?thesis
    by (simp add: stopLive_def stopLive_start_def stopLive_rest_ok [OF assms]
        released_without_session session_calls_def)
next
  case (Some p)
  then show ?thesis
    by (simp add: stopLive_def stopLive_start_def stopLive_resume_def stopLive_rest_ok [OF assms]
        close_session_calls released_def)
qed

lemma stopLive_rest_released:
  "stopLive_rest fails (released this) = (None, released this, [])"
  by (simp add: stopLive_rest_def release_mic_def release_sources_def
      release_input_def release_output_def released_def)

lemma stopLive_released:
  "stopLive fails (released this) = (None, released this, [])"
proof -
  have "activeSession (released this) = None" by (simp add: released_def)
  then show ?thesis
    by (simp add: stopLive_def stopLive_start_def stopLive_rest_released)
qed

lemma released_idem: "(released this)\<lparr>activeSession := None\<rparr> = released this"
  by (simp add: released_def)

text \<open>
  The part of teardown that holds. When no track stop and no context close throws, whatever
  the session close and the stops of the scheduled sources do, \<^verbatim>\<open>stopLive\<close> returns
  normally after every release call, in order, and leaves the session, the stream and both
  contexts null and the active set empty; a second call after it makes no platform call,
  raises nothing and changes nothing.
\<close>

lemma stopLive_idempotent:
  assumes "\<And>t. \<not> fails (Track_stop t)"
    and "\<not> fails InputContext_close" and "\<not> fails OutputContext_close"
  shows "stopLive fails this =
     (None, released this,
      session_calls (activeSession this) @ track_calls (micStream this) @
      map Source_stop (activeAudioSources this) @
      context_calls InputContext_close (inputAudioContext this) @
      context_calls OutputContext_close (outputAudioContext this)) \<and>
     stopLive fails' (fst (snd (stopLive fails this))) = (None, released this, [])"
  using stopLive_ok [OF assms] stopLive_released by simp

text \<open>
  Two calls started in a row, the second while the first awaits the session: both call
  \<^verbatim>\<open>close\<close> on the session, the first releases everything else, and neither raises.
\<close>

lemma stopLive_twice_ok:
  assumes "\<And>t. \<not> fails (Track_stop t)"
    and "\<not> fails InputContext_close" and "\<not> fails OutputContext_close"
  shows "stopLive_twice fails this =
     (None, None, released this,
      session_calls (activeSession this) @ track_calls (micStream this) @
      map Source_stop (activeAudioSources this) @
      context_calls InputContext_close (inputAudioContext this) @
      context_calls OutputContext_close (outputAudioContext this) @
      session_calls (activeSession this))"
proof (cases "activeSession this")
  case None
  then show ?thesis
    by (simp add: stopLive_twice_def stopLive_start_def stopLive_rest_ok [OF assms]
        released_without_session stopLive_released session_calls_def)
next
  case (Some p)
  have first: "stopLive_resume fails p this =
     (None, released this,
      close_session p @ track_calls (micStream this) @
      map Source_stop (activeAudioSources this) @
      context_calls InputContext_close (inputAudioContext this) @
      context_calls OutputContext_close (outputAudioContext this))"
    by (simp add: stopLive_resume_def stopLive_rest_ok [OF assms] released_def)
  have second: "stopLive_resume fails p (released this) = (None, released this, close_session p)"
    by (simp add: stopLive_resume_def released_idem stopLive_rest_released)
  show ?thesis
    using Some by (simp add: stopLive_twice_def stopLive_start_def first second close_session_calls)
qed

lemma playing_service_fields:
  "activeSession playing_service = Some Resolved"
  "micStream playing_service = Some [7]"
  "activeAudioSources playing_service = [0]"
  "inputAudioContext playing_service = Some \<lparr> sampleRate = 16000, currentTime = 0 \<rparr>"
  "outputAudioContext playing_service = Some \<lparr> sampleRate = 24000, currentTime = 0 \<rparr>"
  by (simp_all add: playing_service_def live_service_def connectLive_def new_service_def
      playBuffered_def set_add_def Let_def)

text \<open>The teardown never assigns the cursor, whether it completes or not.\<close>

lemma release_mic_cursor: "scheduledTime (fst (snd (release_mic fails this))) = scheduledTime this"
  by (simp add: release_mic_def split: option.split prod.split)

lemma release_input_cursor:
  "scheduledTime (fst (snd (release_input fails this))) = scheduledTime this"
  by (simp add: release_input_def split: option.split)

lemma release_output_cursor:
  "scheduledTime (fst (snd (release_output fails this))) = scheduledTime this"
  by (simp add: release_output_def split: option.split)

lemma stopLive_rest_cursor:
  "scheduledTime (fst (snd (stopLive_rest fails this))) = scheduledTime this"
proof -
  obtain r2 s2 l2 where mic: "release_mic fails this = (r2, s2, l2)"
    by (cases "release_mic fails this") auto
  from release_mic_cursor [of fails this] have c2: "scheduledTime s2 = scheduledTime this"
    unfolding mic by simp
  show ?thesis
  proof (cases r2)
    case (Some e)
    then show ?thesis unfolding stopLive_rest_def mic using c2 by simp
  next
    case None
    let ?s3 = "s2\<lparr>activeAudioSources := []\<rparr>"
    obtain r4 s4 l4 where inp: "release_input fails ?s3 = (r4, s4, l4)"
      by (cases "release_input fails ?s3") auto
    from release_input_cursor [of fails ?s3] have c4: "scheduledTime s4 = scheduledTime s2"
      unfolding inp by simp
    show ?thesis
    proof (cases r4)
      case (Some e)
      then show ?thesis
        unfolding stopLive_rest_def mic release_sources_def using None inp c2 c4 by simp
    next
      case r4: None
      obtain r5 s5 l5 where outp: "release_output fails s4 = (r5, s5, l5)"
        by (cases "release_output fails s4") auto
      from release_output_cursor [of fails s4] have c5: "scheduledTime s5 = scheduledTime s4"
        unfolding outp by simp
      show ?thesis
        unfolding stopLive_rest_def mic release_sources_def using None r4 inp outp c2 c4 c5 by simp
    qed
  qed
qed

lemma stopLive_resume_cursor:
  "scheduledTime (fst (snd (stopLive_resume fails p this))) = scheduledTime this"
  using stopLive_rest_cursor [of fails "this\<lparr>activeSession := None\<rparr>"]
  by (simp add: stopLive_resume_def case_prod_beta)

lemma stopLive_cursor:
  "scheduledTime (fst (snd (stopLive fails this))) = scheduledTime this"
  by (cases "activeSession this")
     (simp_all add: stopLive_def stopLive_start_def stopLive_rest_cursor stopLive_resume_cursor)

text \<open>
  A failing session close and a failing stop of a scheduled source are caught: the teardown
  goes through all its steps.
\<close>

lemma stopLive_wrapped_failure:
  "stopLive wrapped_failure playing_service =
     (None, released playing_service,
      [Session_close, Track_stop 7, Source_stop 0, InputContext_close, OutputContext_close])"
  by (simp add: stopLive_def stopLive_start_def stopLive_resume_def stopLive_rest_def
      close_session_def release_mic_def release_sources_def release_input_def
      release_output_def released_def wrapped_failure_def playing_service_fields)


section \<open>Properties of the cursor\<close>

text \<open>
  C7, as stated, fails: the device clock runs on between operations and overtakes the
  cursor. After one half-second buffer scheduled at clock 0 and one second of playback the
  cursor stands at 0.5 and the clock at 1.
\<close>

theorem cursor_behind_clock_counterexample:
  "\<not> cursor_ahead (run_events no_failure live_service [Schedule half_second, Tick 1])"
  by (simp add: cursor_ahead_def run_events_def live_service_def connectLive_def
      new_service_def playBuffered_def set_add_def Let_def tick_def duration_def half_second_def)

lemma event_cursor:
  "if writes_cursor e then cursor_ahead (apply_event fails state e)
   else scheduledTime (apply_event fails state e) = scheduledTime state"
proof (cases e)
  case (Schedule buffer)
  then show ?thesis
    using duration_nonneg [of buffer]
    by (auto simp: cursor_ahead_def playBuffered_def Let_def max_def split: option.split)
next
  case Flush
  then show ?thesis
    by (simp add: cursor_ahead_def flush_def Let_def split: option.split)
next
  case (Narrate segments)
  then show ?thesis
    by (simp add: cursor_ahead_def speakMultiVoiceSegments_start_def Let_def)
qed (simp_all add: cursor_ahead_def tick_def onended_def connectLive_def Let_def stopLive_cursor)

text \<open>
  C7, amended. The cursor is assigned by four operations only: the start of a live session
  and the start of a narration, which set it to the clock of the fresh output context; the
  flush, which sets it to the reading of the device clock; and \<^verbatim>\<open>playBuffered\<close>, which sets
  it to the later of the old cursor and the clock, plus the buffer's duration, so that it
  grows by at least the duration, and by exactly the duration when it was not behind the
  clock. Right after each of them the cursor is not behind the device clock. The passing of
  time, the end of a source and the teardown (in whole or in part) leave the cursor alone:
  every event either assigns the cursor and leaves it not behind the clock, or keeps it.
\<close>

theorem cursor_after_operation:
  assumes "outputAudioContext this = Some ctx"
  shows "cursor_ahead (fst (playBuffered buffer this)) \<and>
         scheduledTime (fst (playBuffered buffer this)) =
           max (scheduledTime this) (currentTime ctx) + duration buffer \<and>
         scheduledTime this + duration buffer \<le> scheduledTime (fst (playBuffered buffer this)) \<and>
         scheduledTime (fst (playBuffered buffer this)) =
           (if cursor_ahead this then scheduledTime this + duration buffer
            else currentTime ctx + duration buffer) \<and>
         cursor_ahead (fst (flush fails this)) \<and>
         scheduledTime (fst (flush fails this)) = currentTime ctx \<and>
         outputAudioContext (connectLive tracks sessionPromise state) =
           Some \<lparr> sampleRate = 24000, currentTime = 0 \<rparr> \<and>
         scheduledTime (connectLive tracks sessionPromise state) = 0 \<and>
         cursor_ahead (connectLive tracks sessionPromise state) \<and>
         outputAudioContext (speakMultiVoiceSegments_start (segment # segments) state) =
           Some \<lparr> sampleRate = 24000, currentTime = 0 \<rparr> \<and>
         scheduledTime (speakMultiVoiceSegments_start (segment # segments) state) = 0 \<and>
         cursor_ahead (speakMultiVoiceSegments_start (segment # segments) state) \<and>
         speakMultiVoiceSegments_start [] state = state \<and>
         scheduledTime (tick d state) = scheduledTime state \<and>
         scheduledTime (onended source state) = scheduledTime state \<and>
         scheduledTime (fst (snd (stopLive_rest fails state))) = scheduledTime state \<and>
         scheduledTime (fst (snd (stopLive_resume fails sessionPromise state))) =
           scheduledTime state \<and>
         scheduledTime (fst (snd (stopLive fails state))) = scheduledTime state \<and>
         (if writes_cursor e then cursor_ahead (apply_event fails state e)
          else scheduledTime (apply_event fails state e) = scheduledTime state)"
proof -
  have scheduler:
    "cursor_ahead (fst (playBuffered buffer this)) \<and>
     scheduledTime (fst (playBuffered buffer this)) =
       max (scheduledTime this) (currentTime ctx) + duration buffer \<and>
     scheduledTime this + duration buffer \<le> scheduledTime (fst (playBuffered buffer this)) \<and>
     scheduledTime (fst (playBuffered buffer this)) =
       (if cursor_ahead this then scheduledTime this + duration buffer
        else currentTime ctx + duration buffer) \<and>
     cursor_ahead (fst (flush fails this)) \<and>
     scheduledTime (fst (flush fails this)) = currentTime ctx"
    using assms duration_nonneg [of buffer]
    by (simp add: cursor_ahead_def playBuffered_def flush_def Let_def max_def)
  have starts:
    "outputAudioContext (connectLive tracks sessionPromise state) =
       Some \<lparr> sampleRate = 24000, currentTime = 0 \<rparr> \<and>
     scheduledTime (connectLive tracks sessionPromise state) = 0 \<and>
     cursor_ahead (connectLive tracks sessionPromise state) \<and>
     outputAudioContext (speakMultiVoiceSegments_start (segment # segments) state) =
       Some \<lparr> sampleRate = 24000, currentTime = 0 \<rparr> \<and>
     scheduledTime (speakMultiVoiceSegments_start (segment # segments) state) = 0 \<and>
     cursor_ahead (speakMultiVoiceSegments_start (segment # segments) state) \<and>
     speakMultiVoiceSegments_start [] state = state"
    by (simp add: cursor_ahead_def connectLive_def speakMultiVoiceSegments_start_def Let_def)
  have kept:
    "scheduledTime (tick d state) = scheduledTime state \<and>
     scheduledTime (onended source state) = scheduledTime state \<and>
     scheduledTime (fst (snd (stopLive_rest fails state))) = scheduledTime state \<and>
     scheduledTime (fst (snd (stopLive_resume fails sessionPromise state))) =
       scheduledTime state \<and>
     scheduledTime (fst (snd (stopLive fails state))) = scheduledTime state"
    by (simp add: tick_def onended_def stopLive_rest_cursor stopLive_resume_cursor
        stopLive_cursor)
  show ?thesis
    using scheduler starts kept event_cursor [of e fails state] by blast
qed

theorem cursor_after_operation_witness:
  "outputAudioContext (tick 1 playing_service) = Some \<lparr> sampleRate = 24000, currentTime = 1 \<rparr> \<and>
   \<not> cursor_ahead (tick 1 playing_service) \<and>
   cursor_ahead (fst (playBuffered half_second (tick 1 playing_service))) \<and>
   scheduledTime (fst (playBuffered half_second (tick 1 playing_service))) = 3 / 2 \<and>
   cursor_ahead (fst (flush no_failure (tick 1 playing_service))) \<and>
   scheduledTime (fst (flush no_failure (tick 1 playing_service))) = 1 \<and>
   scheduledTime (connectLive [7] Resolved (tick 1 playing_service)) = 0"
proof -
  have ctx: "outputAudioContext (tick 1 playing_service) =
      Some \<lparr> sampleRate = 24000, currentTime = 1 \<rparr>"
    by (simp add: tick_def playing_service_def live_service_def connectLive_def new_service_def
        playBuffered_def Let_def)
  have cursor: "scheduledTime (tick 1 playing_service) = 1 / 2"
    by (simp add: tick_def playing_service_def live_service_def connectLive_def new_service_def
        playBuffered_def Let_def duration_def half_second_def)
  have dur: "duration half_second = 1 / 2"
    by (simp add: duration_def half_second_def)
  have behind: "\<not> cursor_ahead (tick 1 playing_service)"
    using ctx cursor by (simp add: cursor_ahead_def)
  show ?thesis
    using cursor_after_operation [OF ctx, where buffer = half_second and fails = no_failure
        and tracks = "[7]" and sessionPromise = Resolved and state = "tick 1 playing_service"
        and segment = "''a''" and segments = "[]" and d = 0 and source = 0 and e = Flush]
      ctx cursor dur behind
    by auto
qed

section \<open>Properties of the PCM codec\<close>

subsection \<open>Base64: decoding an encoded byte sequence gives the bytes back\<close>

lemma unat_byte: "unat (a :: 8 word) < 256"
  using unsigned_less [of a, where ?'a = nat] by simp

lemma regroup4:
  fixes n :: nat
  shows "((n div 262144 * 64 + n div 4096 mod 64) * 64 + n div 64 mod 64) * 64 + n mod 64 = n"
proof -
  have a: "n div 262144 = n div 4096 div 64" by (simp add: div_mult2_eq [symmetric])
  have b: "n div 4096 = n div 64 div 64" by (simp add: div_mult2_eq [symmetric])
  have "n div 262144 * 64 + n div 4096 mod 64 = n div 4096"
    unfolding a by simp
  moreover have "n div 4096 * 64 + n div 64 mod 64 = n div 64"
    unfolding b by simp
  ultimately show ?thesis by simp
qed

lemma regroup3:
  fixes n :: nat
  shows "(n div 262144 * 64 + n div 4096 mod 64) * 64 + n div 64 mod 64 = n div 64"
proof -
  have a: "n div 262144 = n div 4096 div 64" by (simp add: div_mult2_eq [symmetric])
  have b: "n div 4096 = n div 64 div 64" by (simp add: div_mult2_eq [symmetric])
  have "n div 262144 * 64 + n div 4096 mod 64 = n div 4096"
    unfolding a by simp
  moreover have "n div 4096 * 64 + n div 64 mod 64 = n div 64"
    unfolding b by simp
  ultimately show ?thesis by simp
qed

lemma regroup2:
  fixes n :: nat
  shows "n div 262144 * 64 + n div 4096 mod 64 = n div 4096"
proof -
  have a: "n div 262144 = n div 4096 div 64" by (simp add: div_mult2_eq [symmetric])
  show ?thesis unfolding a by simp
qed

lemma bytes3:
  fixes a b c :: nat
  assumes "b < 256" "c < 256"
  shows "(a * 65536 + b * 256 + c) div 65536 = a"
    and "(a * 65536 + b * 256 + c) div 256 mod 256 = b"
    and "(a * 65536 + b * 256 + c) mod 256 = c"
proof -
  have r: "b * 256 + c < 65536" using assms by linarith
  have "(a * 65536 + (b * 256 + c)) div 65536 = a" using r by simp
  then show "(a * 65536 + b * 256 + c) div 65536 = a" by (simp add: add.assoc)
  have "(a * 65536 + b * 256 + c) = (a * 256 + b) * 256 + c" by simp
  then have d: "(a * 65536 + b * 256 + c) div 256 = a * 256 + b" using assms(2) by simp
  show "(a * 65536 + b * 256 + c) div 256 mod 256 = b" unfolding d using assms(1) by simp
  have e: "(a * 65536 + b * 256 + c) = c + (a * 256 + b) * 256" by simp
  have "(c + (a * 256 + b) * 256) mod 256 = c mod 256" by (rule mod_mult_self1)
  then show "(a * 65536 + b * 256 + c) mod 256 = c" unfolding e using assms(2) by simp
qed

lemma octets_group3:
  "octets (let n = unat a * 65536 + unat b * 256 + unat c
           in [n div 262144, n div 4096 mod 64, n div 64 mod 64, n mod 64] @ vs) =
   a # b # c # octets vs"
proof -
  define n where "n = unat a * 65536 + unat b * 256 + unat c"
  have j: "((n div 262144 * 64 + n div 4096 mod 64) * 64 + n div 64 mod 64) * 64 + n mod 64 = n"
    by (rule regroup4)
  have n1: "n div 65536 = unat a" and n2: "n div 256 mod 256 = unat b" and n3: "n mod 256 = unat c"
    unfolding n_def by (rule bytes3 [OF unat_byte unat_byte])+
  have "octets ([n div 262144, n div 4096 mod 64, n div 64 mod 64, n mod 64] @ vs) =
        [of_nat (n div 65536), of_nat (n div 256 mod 256), of_nat (n mod 256)] @ octets vs"
    by (simp only: append_Cons append_Nil octets.simps Let_def j)
  also have "\<dots> = a # b # c # octets vs"
    by (simp add: n1 n2 n3)
  finally show ?thesis unfolding n_def Let_def .
qed

lemma octets_group2:
  "octets (let n = unat a * 65536 + unat b * 256
           in [n div 262144, n div 4096 mod 64, n div 64 mod 64]) = [a, b]"
proof -
  define n where "n = unat a * 65536 + unat b * 256"
  have n0: "n = unat a * 65536 + unat b * 256 + 0" by (simp add: n_def)
  have j: "(n div 262144 * 64 + n div 4096 mod 64) * 64 + n div 64 mod 64 = n div 64"
    by (rule regroup3)
  have z: "(0::nat) < 256" by simp
  have "n div 64 div 1024 = n div 65536" by (simp add: div_mult2_eq [symmetric])
  also have "\<dots> = unat a" unfolding n0 by (rule bytes3(1) [OF unat_byte z])
  finally have n1: "n div 64 div 1024 = unat a" .
  have "n div 64 div 4 = n div 256" by (simp add: div_mult2_eq [symmetric])
  moreover have "n div 256 mod 256 = unat b" unfolding n0 by (rule bytes3(2) [OF unat_byte z])
  ultimately have n2: "n div 64 div 4 mod 256 = unat b" by simp
  have "octets [n div 262144, n div 4096 mod 64, n div 64 mod 64] =
        [of_nat (n div 64 div 1024), of_nat (n div 64 div 4 mod 256)]"
    by (simp only: octets.simps Let_def j)
  also have "\<dots> = [a, b]"
    by (simp add: n1 n2)
  finally show ?thesis unfolding n_def Let_def .
qed

lemma octets_group1:
  "octets (let n = unat a * 65536 in [n div 262144, n div 4096 mod 64]) = [a]"
proof -
  define n where "n = unat a * 65536"
  have j: "n div 262144 * 64 + n div 4096 mod 64 = n div 4096"
    by (rule regroup2)
  have "n div 4096 div 16 = n div 65536" by (simp add: div_mult2_eq [symmetric])
  also have "\<dots> = unat a" by (simp add: n_def)
  finally have n1: "n div 4096 div 16 = unat a" .
  have "octets [n div 262144, n div 4096 mod 64] = [of_nat (n div 4096 div 16)]"
    by (simp only: octets.simps Let_def j)
  also have "\<dots> = [a]"
    by (simp add: n1)
  finally show ?thesis unfolding n_def Let_def .
qed

lemma octets_sextets: "octets (sextets bytes) = bytes"
proof (induction bytes rule: sextets.induct)
  case (1 a b c rest)
  then show ?case using octets_group3 [of a b c "sextets rest"] by simp
next
  case (2 a b)
  then show ?case using octets_group2 [of a b] by simp
next
  case (3 a)
  then show ?case using octets_group1 [of a] by simp
next
  case 4
  then show ?case by simp
qed

lemma b64_table:
  "list_all (\<lambda>n. b64_value (b64_char n) = Some n \<and> b64_char n \<noteq> CHR ''='' \<and>
      \<not> ascii_whitespace (b64_char n)) [0..<64]"
  by code_simp

lemma b64_char_props:
  assumes "n < 64"
  shows "b64_value (b64_char n) = Some n" "b64_char n \<noteq> CHR ''=''" "\<not> ascii_whitespace (b64_char n)"
proof -
  have "n \<in> set [0..<64]" using assms by simp
  with b64_table have "b64_value (b64_char n) = Some n \<and> b64_char n \<noteq> CHR ''='' \<and>
      \<not> ascii_whitespace (b64_char n)"
    unfolding list_all_iff by blast
  then show "b64_value (b64_char n) = Some n" "b64_char n \<noteq> CHR ''=''" "\<not> ascii_whitespace (b64_char n)"
    by simp_all
qed

lemma top_sextet:
  fixes n :: nat
  assumes "n < 16777216"
  shows "n div 262144 < 64"
  using assms by (simp add: less_mult_imp_div_less)

lemma sextets_bound: "v \<in> set (sextets bytes) \<Longrightarrow> v < 64"
proof (induction bytes rule: sextets.induct)
  case (1 a b c rest)
  have "unat a * 65536 + unat b * 256 + unat c < 16777216"
    using unat_byte [of a] unat_byte [of b] unat_byte [of c] by linarith
  from top_sextet [OF this] show ?case using 1 by (auto simp: Let_def)
next
  case (2 a b)
  have "unat a * 65536 + unat b * 256 < 16777216"
    using unat_byte [of a] unat_byte [of b] by linarith
  from top_sextet [OF this] show ?case using 2 by (auto simp: Let_def)
next
  case (3 a)
  have "unat a * 65536 < 16777216"
    using unat_byte [of a] by linarith
  from top_sextet [OF this] show ?case using 3 by (auto simp: Let_def)
next
  case 4
  then show ?case by simp
qed

lemma sextets_length:
  "length (sextets bytes) + (3 - length bytes mod 3) mod 3 = 4 * ((length bytes + 2) div 3)"
proof (induction bytes rule: sextets.induct)
  case (1 a b c rest)
  have A: "length (sextets (a # b # c # rest)) = 4 + length (sextets rest)"
    by (simp add: Let_def)
  have B: "(length (a # b # c # rest) + 2) div 3 = Suc ((length rest + 2) div 3)"
    by simp
  have C: "length (a # b # c # rest) mod 3 = length rest mod 3"
  proof -
    have "length (a # b # c # rest) = length rest + 3" by simp
    then show ?thesis by (simp only: mod_add_self2)
  qed
  show ?case unfolding A B C using 1 by simp
qed (simp_all add: Let_def)

lemma those_values:
  "(\<And>v. v \<in> set vs \<Longrightarrow> v < 64) \<Longrightarrow> those (map b64_value (map b64_char vs)) = Some vs"
  by (induction vs) (simp_all add: b64_char_props)

lemma filter_whitespace:
  "(\<And>v. v \<in> set vs \<Longrightarrow> v < 64) \<Longrightarrow>
   filter (\<lambda>c. \<not> ascii_whitespace c) (map b64_char vs @ replicate k (CHR ''='')) =
   map b64_char vs @ replicate k (CHR ''='')"
proof -
  assume vs: "\<And>v. v \<in> set vs \<Longrightarrow> v < 64"
  have "\<not> ascii_whitespace (CHR ''='')" by (simp add: ascii_whitespace_def)
  then have "\<And>c. c \<in> set (map b64_char vs @ replicate k (CHR ''='')) \<Longrightarrow> \<not> ascii_whitespace c"
    using vs by (auto simp: b64_char_props)
  then show ?thesis by (intro filter_True ballI)
qed

lemma strip_padding_btoa:
  assumes vs: "\<And>v. v \<in> set vs \<Longrightarrow> v < 64"
    and len: "(length vs + k) mod 4 = 0" and k: "k \<le> 2"
  shows "strip_padding (map b64_char vs @ replicate k (CHR ''='')) = map b64_char vs"
proof -
  have last_ok: "b64_char (last vs) \<noteq> CHR ''=''" if "vs \<noteq> []"
    using that vs [of "last vs"] by (simp add: b64_char_props)
  consider "k = 0" | "k = 1" | "k = 2" using k by linarith
  then show ?thesis
  proof cases
    case 1
    show ?thesis
    proof (cases vs rule: rev_cases)
      case Nil
      then show ?thesis using 1 by (simp add: strip_padding_def)
    next
      case (snoc ws w)
      then have "b64_char w \<noteq> CHR ''=''" using last_ok by simp
      then show ?thesis using 1 snoc
        by (cases "rev ws") (simp_all add: strip_padding_def rev_map)
    qed
  next
    case 2
    then have "vs \<noteq> []" using len by auto
    then obtain ws w where snoc: "vs = ws @ [w]" by (cases vs rule: rev_cases) auto
    then have "b64_char w \<noteq> CHR ''=''" using last_ok by simp
    then show ?thesis using 2 snoc len
      by (simp add: strip_padding_def rev_map)
  next
    case 3
    then show ?thesis using len
      by (simp add: strip_padding_def rev_map numeral_2_eq_2)
  qed
qed

lemma atob_btoa: "atob (btoa bytes) = Inr bytes"
proof -
  let ?vs = "sextets bytes"
  let ?k = "(3 - length bytes mod 3) mod 3"
  have vs: "\<And>v. v \<in> set ?vs \<Longrightarrow> v < 64" by (rule sextets_bound)
  have len: "(length ?vs + ?k) mod 4 = 0" by (simp add: sextets_length)
  have k: "?k \<le> 2" by simp
  have m: "length ?vs mod 4 \<noteq> 1"
  proof -
    have "\<And>l k :: nat. (l + k) mod 4 = 0 \<Longrightarrow> k \<le> 2 \<Longrightarrow> l mod 4 \<noteq> 1"
      by presburger
    from this [OF len k] show ?thesis .
  qed
  have "strip_padding (filter (\<lambda>c. \<not> ascii_whitespace c) (btoa bytes)) = map b64_char ?vs"
    unfolding btoa_def by (simp only: filter_whitespace [OF vs] strip_padding_btoa [OF vs len k])
  then show ?thesis
    using m by (simp add: atob_def those_values [OF vs] octets_sextets del: map_map)
qed

subsection \<open>Byte views and the mono decoder\<close>

lemma int16_bytes_join:
  fixes w :: "16 word"
  shows "(ucast (ucast w :: 8 word) :: 16 word) OR push_bit 8 (ucast (ucast (drop_bit 8 w) :: 8 word)) = w"
proof (rule bit_word_eqI)
  fix n :: nat
  assume "n < LENGTH(16)"
  then show "bit ((ucast (ucast w :: 8 word) :: 16 word) OR push_bit 8 (ucast (ucast (drop_bit 8 w) :: 8 word))) n = bit w n"
    by (cases "n < 8") (auto simp: bit_simps)
qed

lemma int16_elements_bytes: "int16_elements (buffer_bytes ws) = ws"
  by (induction ws) (simp_all add: buffer_bytes_def int16_bytes_def int16_bytes_join)

lemma length_buffer_bytes: "length (buffer_bytes ws) = 2 * length ws"
  by (induction ws) (simp_all add: buffer_bytes_def int16_bytes_def)

lemma Int16Array_bytes: "Int16Array (buffer_bytes ws) = Inr ws"
  by (simp add: Int16Array_def length_buffer_bytes int16_elements_bytes)

lemma view_bytes_whole: "view_bytes (whole_view bytes) = bytes"
  by (simp add: view_bytes_def whole_view_def)

lemma decode_createBlob:
  "decode (blob_data (createBlob data)) = Inr (whole_view (buffer_bytes (map quantize data)))"
  by (simp add: decode_def createBlob_def encode_def view_bytes_whole atob_btoa)

lemma fill_mono_aux:
  "length d = n \<Longrightarrow> m \<le> n \<Longrightarrow>
   fold (\<lambda>i d. typed_set d i (f i)) [0..<m] d = map f [0..<m] @ drop m d"
proof (induction m)
  case 0
  then show ?case by simp
next
  case (Suc m)
  then have "fold (\<lambda>i d. typed_set d i (f i)) [0..<m] d = map f [0..<m] @ drop m d" by simp
  moreover have "typed_set (map f [0..<m] @ drop m d) m (f m) = map f [0..<Suc m] @ drop (Suc m) d"
    using Suc.prems by (simp add: typed_set_def list_update_append upd_conv_take_nth_drop)
  ultimately show ?case by simp
qed

lemma fill_channel_mono:
  "length d = length int16 \<Longrightarrow>
   fill_channel int16 1 (of_nat (length int16)) 0 d =
     map (\<lambda>w. Num (of_int (sint w) / 32768)) int16"
proof -
  assume len: "length d = length int16"
  have "fill_channel int16 1 (of_nat (length int16)) 0 d =
        map (\<lambda>i. sample_at int16 (i * 1 + 0)) [0..<length int16] @ drop (length int16) d"
    unfolding fill_channel_def using fill_mono_aux [OF len, of "length int16" "\<lambda>i. sample_at int16 (i * 1 + 0)"]
    by simp
  also have "\<dots> = map (\<lambda>i. Num (of_int (sint (int16 ! i)) / 32768)) [0..<length int16]"
    using len by (simp add: sample_at_def)
  also have "\<dots> = map (\<lambda>w. Num (of_int (sint w) / 32768)) (map ((!) int16) [0..<length int16])"
    by (simp add: o_def del: map_nth)
  also have "\<dots> = map (\<lambda>w. Num (of_int (sint w) / 32768)) int16"
    by (simp only: map_nth)
  finally show ?thesis .
qed

lemma decodeAudioData_mono:
  assumes "ws \<noteq> []" and "length ws < 2 ^ 32" and "rate \<noteq> 0"
  shows "decodeAudioData (whole_view (buffer_bytes ws)) ctx rate 1 =
     Inr \<lparr> numberOfChannels = 1, buf_length = length ws, buf_sampleRate = rate,
           channelData = [map (\<lambda>w. Num (of_int (sint w) / 32768)) ws] \<rparr>"
proof -
  have len: "nat \<lfloor>(of_nat (length ws) :: rat)\<rfloor> mod 2 ^ 32 = length ws"
    using assms(2) by simp
  have buf: "createBuffer 1 (of_nat (length ws)) rate =
     Inr \<lparr> numberOfChannels = 1, buf_length = length ws, buf_sampleRate = rate,
           channelData = [replicate (length ws) (Num 0)] \<rparr>"
    using assms(1,3) unfolding createBuffer_def Let_def len by simp
  have fill: "fill_channel ws 1 (of_nat (length ws)) 0 (replicate (length ws) (Num 0)) =
     map (\<lambda>w. Num (of_int (sint w) / 32768)) ws"
    by (rule fill_channel_mono) simp
  have one: "[0..<1] = [0::nat]" by simp
  have view: "array_buffer (whole_view (buffer_bytes ws)) = buffer_bytes ws"
    by (simp add: whole_view_def)
  show ?thesis
    unfolding decodeAudioData_def view Int16Array_bytes
    by (simp add: buf fill one del: One_nat_def)
qed

subsection \<open>Quantization\<close>

lemma sint_quantize:
  "sint (quantize (Num x)) = (truncate_rat (x * 32768) + 32768) mod 65536 - 32768"
  by (simp add: quantize_def int_word_sint)

lemma wrap_in_range:
  fixes t :: int
  assumes "- 32768 \<le> t" and "t \<le> 32767"
  shows "(t + 32768) mod 65536 - 32768 = t"
  using assms by simp

lemma truncate_range:
  assumes "- 1 \<le> x" and "x < 1"
  shows "- 32768 \<le> truncate_rat (x * 32768)" and "truncate_rat (x * 32768) \<le> 32767"
proof -
  have lo: "- 32768 \<le> x * 32768" and hi: "x * 32768 < 32768" using assms by simp_all
  show "- 32768 \<le> truncate_rat (x * 32768)"
    using lo by (simp add: truncate_rat_def le_floor_iff le_ceiling_iff)
  show "truncate_rat (x * 32768) \<le> 32767"
  proof (cases "0 \<le> x * 32768")
    case True
    have "\<lfloor>x * 32768\<rfloor> < 32768" using hi by (simp add: floor_less_iff)
    then show ?thesis using True by (simp add: truncate_rat_def)
  next
    case False
    then have "\<lceil>x * 32768\<rceil> \<le> 0" by (simp add: ceiling_le_iff)
    then show ?thesis using False by (simp add: truncate_rat_def)
  qed
qed

lemma truncate_error: "\<bar>y - of_int (truncate_rat y)\<bar> < 1"
proof (cases "0 \<le> y")
  case True
  have "of_int \<lfloor>y\<rfloor> \<le> y" and "y < of_int \<lfloor>y\<rfloor> + 1" by linarith+
  then have "\<bar>y - of_int \<lfloor>y\<rfloor>\<bar> < 1" by linarith
  then show ?thesis using True by (simp add: truncate_rat_def)
next
  case False
  have "y \<le> of_int \<lceil>y\<rceil>" and "of_int \<lceil>y\<rceil> - 1 < y" by linarith+
  then have "\<bar>y - of_int \<lceil>y\<rceil>\<bar> < 1" by linarith
  then show ?thesis using False by (simp add: truncate_rat_def)
qed

lemma quantize_error:
  "\<bar>x - of_int (truncate_rat (x * 32768)) / 32768\<bar> < 1 / 32768"
proof -
  have "\<bar>x * 32768 - of_int (truncate_rat (x * 32768))\<bar> < 1" by (rule truncate_error)
  then have "\<bar>(x * 32768 - of_int (truncate_rat (x * 32768))) / 32768\<bar> < 1 / 32768"
    by (simp add: abs_divide divide_strict_right_mono)
  then show ?thesis by (simp add: diff_divide_distrib)
qed

text \<open>
  On a non-empty buffer of samples in the half-open range from \<open>-1\<close> (included) to \<open>1\<close>
  (excluded), encoding and decoding gives every sample truncated to a multiple of
  \<open>1/32768\<close>, less than \<open>1/32768\<close> away from the sample.
\<close>

lemma roundtrip_half_open:
  assumes "xs \<noteq> []" and "length xs < 2 ^ 32" and "\<And>x. x \<in> set xs \<Longrightarrow> - 1 \<le> x \<and> x < 1"
  shows "encode_then_decode ctx (map Num xs) =
     Inr \<lparr> numberOfChannels = 1, buf_length = length xs, buf_sampleRate = 16000,
           channelData = [map (\<lambda>x. Num (of_int (truncate_rat (x * 32768)) / 32768)) xs] \<rparr>"
proof -
  have q: "(signed (quantize (Num x)) :: rat) = of_int (truncate_rat (x * 32768))"
    if "x \<in> set xs" for x
  proof -
    have "sint (quantize (Num x)) = truncate_rat (x * 32768)"
      using truncate_range [of x] assms(3) [OF that] by (simp add: sint_quantize)
    then have "(of_int (sint (quantize (Num x))) :: rat) = of_int (truncate_rat (x * 32768))"
      by (rule arg_cong)
    then show ?thesis unfolding of_int_sint .
  qed
  let ?ws = "map quantize (map Num xs)"
  have ne: "?ws \<noteq> []" and lt: "length ?ws < 2 ^ 32" and r: "(16000::nat) \<noteq> 0"
    using assms(1,2) by simp_all
  have m: "map (\<lambda>w. Num (of_int (sint w) / 32768)) ?ws =
     map (\<lambda>x. Num (of_int (truncate_rat (x * 32768)) / 32768)) xs"
    using q by simp
  have l: "length ?ws = length xs" by simp
  have dec: "decode (blob_data (createBlob (map Num xs))) = Inr (whole_view (buffer_bytes ?ws))"
    by (rule decode_createBlob)
  have "encode_then_decode ctx (map Num xs) =
        decodeAudioData (whole_view (buffer_bytes ?ws)) ctx 16000 1"
    unfolding encode_then_decode_def dec by simp
  also have "\<dots> = Inr \<lparr> numberOfChannels = 1, buf_length = length ?ws, buf_sampleRate = 16000,
           channelData = [map (\<lambda>w. Num (of_int (sint w) / 32768)) ?ws] \<rparr>"
    by (rule decodeAudioData_mono [OF ne lt r])
  finally show ?thesis unfolding m l .
qed

lemma roundtrip_error_bound:
  assumes "xs \<noteq> []" and "length xs < 2 ^ 32" and "\<And>x. x \<in> set xs \<Longrightarrow> - 1 \<le> x \<and> x < 1"
    and "i < length xs"
  shows "\<exists>buffer y. encode_then_decode ctx (map Num xs) = Inr buffer \<and>
           channelData buffer = [map (\<lambda>x. Num (of_int (truncate_rat (x * 32768)) / 32768)) xs] \<and>
           hd (channelData buffer) ! i = Num y \<and> \<bar>xs ! i - y\<bar> < 1 / 32768"
proof (intro exI conjI)
  let ?buffer = "\<lparr> numberOfChannels = 1, buf_length = length xs, buf_sampleRate = 16000,
      channelData = [map (\<lambda>x. Num (of_int (truncate_rat (x * 32768)) / 32768)) xs] \<rparr>"
  show "encode_then_decode ctx (map Num xs) = Inr ?buffer"
    by (rule roundtrip_half_open [OF assms(1,2,3)])
  show "channelData ?buffer = [map (\<lambda>x. Num (of_int (truncate_rat (x * 32768)) / 32768)) xs]"
    by simp
  show "hd (channelData ?buffer) ! i = Num (of_int (truncate_rat (xs ! i * 32768)) / 32768)"
    using assms(4) by simp
  show "\<bar>xs ! i - of_int (truncate_rat (xs ! i * 32768)) / 32768\<bar> < 1 / 32768"
    by (rule quantize_error)
qed

text \<open>
  C3. The round trip fails on the full-scale sample \<open>1.0\<close>, which lies in the range the
  claim covers: \<open>1.0 * 32768 = 32768\<close> does not fit 16 bits, the store into the \<^verbatim>\<open>Int16Array\<close>
  wraps it to \<open>-32768\<close>, and the decoder returns \<open>-1.0\<close>. The error is 2, not at most
  \<open>1/32768\<close>.
\<close>

theorem roundtrip_full_scale:
  "encode_then_decode ctx [Num 1] =
     Inr \<lparr> numberOfChannels = 1, buf_length = 1, buf_sampleRate = 16000,
           channelData = [[Num (- 1)]] \<rparr> \<and>
   \<not> \<bar>1 - (- 1)\<bar> \<le> (1 :: rat) / 32768"
proof -
  have q: "quantize (Num 1) = - 32768"
    by (simp add: quantize_def truncate_rat_def)
  have "decodeAudioData (whole_view (buffer_bytes [quantize (Num 1)])) ctx 16000 1 =
     Inr \<lparr> numberOfChannels = 1, buf_length = length [quantize (Num 1)], buf_sampleRate = 16000,
           channelData = [map (\<lambda>w. Num (of_int (sint w) / 32768)) [quantize (Num 1)]] \<rparr>"
    by (intro decodeAudioData_mono) simp_all
  then show ?thesis
    using decode_createBlob [of "[Num 1]"] by (simp add: encode_then_decode_def q)
qed

text \<open>
  C9, as stated, fails: the conversion does not clamp. The sample \<open>1.5\<close> is encoded as
  \<open>-16384\<close>, where clamping \<open>trunc(1.5 * 32768) = 49152\<close> would give \<open>32767\<close>.
\<close>

theorem quantize_wraps_counterexample:
  "sint (quantize (Num (3 / 2))) = - 16384 \<and>
   clamp16 (truncate_rat (3 / 2 * 32768)) = 32767 \<and>
   sint (quantize (Num (3 / 2))) \<noteq> clamp16 (truncate_rat (3 / 2 * 32768))"
  by (simp add: quantize_def truncate_rat_def clamp16_def)

text \<open>
  C9, amended. \<^verbatim>\<open>createBlob\<close> has no error path: every buffer, whatever its samples, gives
  a frame that decodes to two bytes per sample, with the fixed MIME type. NaN and the
  infinities are encoded as 0. A finite sample \<open>x\<close> is encoded as \<open>trunc(x * 32768)\<close> reduced
  modulo \<open>2^16\<close> into the signed 16-bit range; this is \<open>trunc(x * 32768)\<close> itself, and so
  also its clamp, whenever that value lies between \<open>-32768\<close> and \<open>32767\<close>, in particular for
  every \<open>x\<close> from \<open>-1\<close> (included) to \<open>1\<close> (excluded).
\<close>

theorem quantize_conversion:
  "sint (quantize (Num x)) = (truncate_rat (x * 32768) + 32768) mod 65536 - 32768 \<and>
   (- 32768 \<le> truncate_rat (x * 32768) \<and> truncate_rat (x * 32768) \<le> 32767 \<longrightarrow>
      sint (quantize (Num x)) = truncate_rat (x * 32768) \<and>
      sint (quantize (Num x)) = clamp16 (truncate_rat (x * 32768))) \<and>
   (- 1 \<le> x \<and> x < 1 \<longrightarrow> sint (quantize (Num x)) = truncate_rat (x * 32768)) \<and>
   quantize NaN = 0 \<and> quantize PosInf = 0 \<and> quantize NegInf = 0 \<and>
   decode (blob_data (createBlob data)) = Inr (whole_view (buffer_bytes (map quantize data))) \<and>
   length (buffer_bytes (map quantize data)) = 2 * length data \<and>
   mimeType (createBlob data) = ''audio/pcm;rate=16000''"
proof -
  have wrap: "sint (quantize (Num x)) = (truncate_rat (x * 32768) + 32768) mod 65536 - 32768"
    by (rule sint_quantize)
  have inside: "sint (quantize (Num x)) = truncate_rat (x * 32768)"
    if "- 32768 \<le> truncate_rat (x * 32768)" and "truncate_rat (x * 32768) \<le> 32767"
    using wrap wrap_in_range [OF that] by simp
  have clamp: "clamp16 t = t" if "- 32768 \<le> t" and "t \<le> 32767" for t
    using that by (simp add: clamp16_def)
  have unit: "sint (quantize (Num x)) = truncate_rat (x * 32768)" if "- 1 \<le> x" and "x < 1"
    using inside truncate_range [OF that] by simp
  have special: "quantize NaN = 0" "quantize PosInf = 0" "quantize NegInf = 0"
    by (simp_all add: quantize_def)
  have frame: "decode (blob_data (createBlob data)) =
      Inr (whole_view (buffer_bytes (map quantize data)))"
    by (rule decode_createBlob)
  have size: "length (buffer_bytes (map quantize data)) = 2 * length data"
    by (simp add: length_buffer_bytes)
  have mime: "mimeType (createBlob data) = ''audio/pcm;rate=16000''"
    by (simp add: createBlob_def)
  have ranged: "- 32768 \<le> truncate_rat (x * 32768) \<and> truncate_rat (x * 32768) \<le> 32767 \<longrightarrow>
      sint (quantize (Num x)) = truncate_rat (x * 32768) \<and>
      sint (quantize (Num x)) = clamp16 (truncate_rat (x * 32768))"
    using inside clamp by simp
  have unit': "- 1 \<le> x \<and> x < 1 \<longrightarrow> sint (quantize (Num x)) = truncate_rat (x * 32768)"
    using unit by simp
  show ?thesis
    by (intro conjI) (fact wrap ranged unit' special frame size mime)+
qed

theorem quantize_conversion_witness:
  "- 1 \<le> (- 1 :: rat) \<and> (- 1 :: rat) < 1 \<and>
   sint (quantize (Num (- 1))) = - 32768 \<and>
   clamp16 (truncate_rat (- 1 * 32768)) = - 32768 \<and>
   decode (blob_data (createBlob [Num (- 1)])) = Inr (whole_view [0, 128])"
proof -
  have t: "truncate_rat (- 1 * 32768) = - 32768"
    by (simp add: truncate_rat_def)
  have b: "buffer_bytes (map quantize [Num (- 1)]) = [0, 128]"
    by (simp add: buffer_bytes_def int16_bytes_def quantize_def truncate_rat_def)
  show ?thesis
    using quantize_conversion [of "- 1" "[Num (- 1)]"] t b by (simp add: clamp16_def)
qed

subsection \<open>Malformed frames\<close>













subsection \<open>Handlers started in the same turn\<close>

text \<open>
  A message with a frame of one sample followed at once by an interruption without payload:
  the first handler is suspended at the decoder, the second flushes and returns, and only
  then the first schedules its buffer, after the flush.
\<close>

lemma onmessage_twice_interleaved:
  "onmessage_twice no_failure \<lparr> interrupted = False, inlineData = Some ''AAA='' \<rparr>
     \<lparr> interrupted = True, inlineData = None \<rparr> playing_service =
   (None, None,
    playing_service\<lparr> scheduledTime := 1 / 24000, activeAudioSources := [1], allocated := 2 \<rparr>,
    [Source_stop 0, OnMessage_callback, Source_start 1 0, OnMessage_callback])"
proof -
  have d: "decode ''AAA='' = Inr (whole_view (buffer_bytes [0]))"
    by code_simp
  have b: "decodeAudioData (whole_view (buffer_bytes [0])) \<lparr> sampleRate = 24000, currentTime = 0 \<rparr> 24000 1 =
     Inr \<lparr> numberOfChannels = 1, buf_length = 1, buf_sampleRate = 24000,
           channelData = [[Num 0]] \<rparr>"
  proof -
    have small: "length [0 :: 16 word] < 2 ^ 32"
      by (simp add: less_Suc_eq_le [symmetric] del: One_nat_def)
    have "decodeAudioData (whole_view (buffer_bytes [0])) \<lparr> sampleRate = 24000, currentTime = 0 \<rparr> 24000 1 =
       Inr \<lparr> numberOfChannels = 1, buf_length = length [0 :: 16 word], buf_sampleRate = 24000,
             channelData = [map (\<lambda>w. Num (of_int (sint w) / 32768)) [0 :: 16 word]] \<rparr>"
      by (rule decodeAudioData_mono [OF _ small]) simp_all
    then show ?thesis by simp
  qed
  have first: "onmessage_start no_failure \<lparr> interrupted = False, inlineData = Some ''AAA='' \<rparr>
      playing_service =
    (Awaiting_decoder (Inr \<lparr> numberOfChannels = 1, buf_length = 1, buf_sampleRate = 24000,
           channelData = [[Num 0]] \<rparr>), playing_service, [])"
    by (simp add: onmessage_start_def d b playing_service_fields del: One_nat_def)
  have second: "onmessage_start no_failure \<lparr> interrupted = True, inlineData = None \<rparr>
      playing_service =
    (Handled None, fst (flush no_failure playing_service), [Source_stop 0, OnMessage_callback])"
    by (simp add: onmessage_start_def flush_def playing_service_fields case_prod_beta)
  have resumed: "onmessage_resume (Inr \<lparr> numberOfChannels = 1, buf_length = 1, buf_sampleRate = 24000,
           channelData = [[Num 0]] \<rparr>) (fst (flush no_failure playing_service)) =
     (None,
      playing_service\<lparr> scheduledTime := 1 / 24000, activeAudioSources := [1], allocated := 2 \<rparr>,
      [Source_start 1 0, OnMessage_callback])"
    by (simp add: onmessage_resume_def playBuffered_def flush_def playing_service_fields
        set_add_def Let_def duration_def playing_service_def live_service_def connectLive_def
        new_service_def)
  show ?thesis
    by (simp add: onmessage_twice_def first second resumed del: One_nat_def)
qed

end
